theory Spec2Isabelle
  imports Complex_Main "HOL-Library.Sublist"
begin

section \<open>JavaScript strings\<close>

text \<open>
  A JavaScript string is modelled as a HOL \<open>string\<close>: one \<open>char\<close> stands for one
  code unit below 256, so \<open>length\<close> is \<open>.length\<close> and \<open>take n\<close> is
  \<open>.substring(0, n)\<close>. Texts with code units from 256 on are outside the model.
\<close>

text \<open>White space and line terminators of ECMAScript (the code units below 256).\<close>

definition isSpace :: "char \<Rightarrow> bool" where
  "isSpace c = (c \<in> set [CHR 0x09, CHR 0x0A, CHR 0x0B, CHR 0x0C, CHR 0x0D, CHR 0x20, CHR 0xA0])"

definition isLineTerminator :: "char \<Rightarrow> bool" where
  "isLineTerminator c = (c = CHR 0x0A \<or> c = CHR 0x0D)"

definition isDigit :: "char \<Rightarrow> bool" where
  "isDigit c = (c \<in> set ''0123456789'')"

text \<open>
  Letters are told by their bits: \<open>A\<close>..\<open>Z\<close> are 0x41..0x5A, \<open>a\<close>..\<open>z\<close> are
  0x61..0x7A, so the five low bits lie in 1..26 and bit 5 is the case.
\<close>

definition letterBits :: "bool \<Rightarrow> bool \<Rightarrow> bool \<Rightarrow> bool \<Rightarrow> bool \<Rightarrow> bool" where
  "letterBits b0 b1 b2 b3 b4 =
     ((b0 \<or> b1 \<or> b2 \<or> b3 \<or> b4) \<and> \<not> (b4 \<and> b3 \<and> (b2 \<or> (b1 \<and> b0))))"

fun isLetter :: "char \<Rightarrow> bool" where
  "isLetter (Char b0 b1 b2 b3 b4 b5 b6 b7) = (b6 \<and> \<not> b7 \<and> letterBits b0 b1 b2 b3 b4)"

definition isWord :: "char \<Rightarrow> bool" where
  "isWord c = (isLetter c \<or> isDigit c \<or> c = CHR ''_'')"

text \<open>
  \<open>Canonicalize\<close> of a regular expression with the \<open>i\<close> flag: the upper case of an
  ASCII letter. (A code unit from 128 on never canonicalizes to an ASCII letter, and every
  literal of the program's patterns is ASCII.)
\<close>

fun canon :: "char \<Rightarrow> char" where
  "canon (Char b0 b1 b2 b3 b4 b5 b6 b7) =
     (if b5 \<and> b6 \<and> \<not> b7 \<and> letterBits b0 b1 b2 b3 b4
      then Char b0 b1 b2 b3 b4 False b6 b7
      else Char b0 b1 b2 b3 b4 b5 b6 b7)"

text \<open>
  \<open>String.prototype.toLowerCase\<close> on code units below 256: \<open>A\<close>..\<open>Z\<close> and the
  Latin-1 capitals 0xC0..0xDE (but the sign 0xD7) gain bit 5; 0xDF is a small letter.
\<close>

fun lowerChar :: "char \<Rightarrow> char" where
  "lowerChar (Char b0 b1 b2 b3 b4 b5 b6 b7) =
     (if \<not> b5 \<and> b6 \<and> \<not> b7 \<and> letterBits b0 b1 b2 b3 b4 then Char b0 b1 b2 b3 b4 True b6 b7
      else if \<not> b5 \<and> b6 \<and> b7 \<and> \<not> (b0 \<and> b1 \<and> b2 \<and> b4) then Char b0 b1 b2 b3 b4 True b6 b7
      else Char b0 b1 b2 b3 b4 b5 b6 b7)"

definition toLowerCase :: "string \<Rightarrow> string" where
  "toLowerCase s = map lowerChar s"

text \<open>\<open>String.prototype.trim\<close>.\<close>

definition trim :: "string \<Rightarrow> string" where
  "trim s = rev (dropWhile isSpace (rev (dropWhile isSpace s)))"

text \<open>\<open>s.startsWith(t)\<close> and \<open>s.includes(t)\<close>.\<close>

fun startsWith :: "string \<Rightarrow> string \<Rightarrow> bool" where
  "startsWith s [] = True"
| "startsWith [] (p # ps) = False"
| "startsWith (c # cs) (p # ps) = (c = p \<and> startsWith cs ps)"

fun str_includes :: "string \<Rightarrow> string \<Rightarrow> bool" where
  "str_includes [] t = (t = [])"
| "str_includes (c # cs) t = (startsWith (c # cs) t \<or> str_includes cs t)"

text \<open>\<open>xs.join(sep)\<close>.\<close>

fun join :: "string \<Rightarrow> string list \<Rightarrow> string" where
  "join sep [] = []"
| "join sep [x] = x"
| "join sep (x # y # ys) = x @ sep @ join sep (y # ys)"

text \<open>
  \<open>[...new Set(xs)]\<close>: the distinct elements of \<open>xs\<close> in the order of their first
  occurrence (the insertion order of a \<open>Set\<close>).
\<close>

definition setAdd :: "'a list \<Rightarrow> 'a \<Rightarrow> 'a list" where
  "setAdd acc x = (if x \<in> set acc then acc else acc @ [x])"

definition newSet :: "'a list \<Rightarrow> 'a list" where
  "newSet xs = foldl setAdd [] xs"

section \<open>Regular expressions\<close>

text \<open>
  The patterns of the program use literals, \<open>.\<close>, classes, sequence, alternation, the
  greedy and the lazy star, one capturing group, a negative lookahead and \<open>$\<close>. No
  pattern has more than one capturing group, and none has its group under a quantifier, so
  the state of a match carries the one capture.
\<close>

datatype cls = CChar char | CSpace | CNotSpace | CDigit | CWord

datatype regex =
    Lit string
  | Dot
  | Set "cls list"
  | NotSet "cls list"
  | Seq regex regex
  | Alt regex regex
  | Star regex
  | Lazy regex
  | Group regex
  | NotAhead regex
  | Eol

definition chr_eq :: "bool \<Rightarrow> char \<Rightarrow> char \<Rightarrow> bool" where
  "chr_eq i a b = (if i then canon a = canon b else a = b)"

fun in_cls :: "bool \<Rightarrow> char \<Rightarrow> cls \<Rightarrow> bool" where
  "in_cls i c (CChar x) = chr_eq i x c"
| "in_cls i c CSpace = isSpace c"
| "in_cls i c CNotSpace = (\<not> isSpace c)"
| "in_cls i c CDigit = isDigit c"
| "in_cls i c CWord = isWord c"

fun lit_match :: "bool \<Rightarrow> string \<Rightarrow> string \<Rightarrow> string option" where
  "lit_match i [] s = Some s"
| "lit_match i (p # ps) [] = None"
| "lit_match i (p # ps) (c # cs) = (if chr_eq i p c then lit_match i ps cs else None)"

text \<open>
  A capture is the pair of the text left at the group's start and at its end (the start
  and end index of the engine); \<open>span_text\<close> is the text between them.
\<close>

type_synonym span = "string \<times> string"
type_synonym mstate = "span option \<times> string"

definition span_text :: "span \<Rightarrow> string" where
  "span_text sp = take (length (fst sp) - length (snd sp)) (fst sp)"

text \<open>
  The backtracking matcher of ECMAScript, in its own continuation-passing form:
  \<open>m i r k (g, s)\<close> matches \<open>r\<close> at the front of the remaining text \<open>s\<close> and hands
  every way to do so, in priority order, to the continuation \<open>k\<close>; the first one that
  \<open>k\<close> accepts is the result. \<open>i\<close> is the ignore-case flag. An iteration of a star
  that consumes nothing is rejected, as the language does.
\<close>

function (sequential) m :: "bool \<Rightarrow> regex \<Rightarrow> (mstate \<Rightarrow> mstate option) \<Rightarrow> mstate \<Rightarrow> mstate option" where
  "m i (Lit l) k (g, s) = (case lit_match i l s of None \<Rightarrow> None | Some t \<Rightarrow> k (g, t))"
| "m i Dot k (g, s) =
     (case s of [] \<Rightarrow> None | c # t \<Rightarrow> if isLineTerminator c then None else k (g, t))"
| "m i (Set cs) k (g, s) =
     (case s of [] \<Rightarrow> None | c # t \<Rightarrow> if list_ex (in_cls i c) cs then k (g, t) else None)"
| "m i (NotSet cs) k (g, s) =
     (case s of [] \<Rightarrow> None | c # t \<Rightarrow> if list_ex (in_cls i c) cs then None else k (g, t))"
| "m i (Seq a b) k st = m i a (\<lambda>st'. m i b k st') st"
| "m i (Alt a b) k st = (case m i a k st of Some x \<Rightarrow> Some x | None \<Rightarrow> m i b k st)"
| "m i (Star r) k (g, s) =
     (case m i r (\<lambda>(g', s'). if length s' < length s then m i (Star r) k (g', s') else None) (g, s) of
        Some x \<Rightarrow> Some x
      | None \<Rightarrow> k (g, s))"
| "m i (Lazy r) k (g, s) =
     (case k (g, s) of
        Some x \<Rightarrow> Some x
      | None \<Rightarrow>
          m i r (\<lambda>(g', s'). if length s' < length s then m i (Lazy r) k (g', s') else None) (g, s))"
| "m i (Group r) k (g, s) = m i r (\<lambda>(g', s'). k (Some (s, s'), s')) (g, s)"
| "m i (NotAhead r) k st = (case m i r Some st of Some x \<Rightarrow> None | None \<Rightarrow> k st)"
| "m i Eol k (g, s) = (if s = [] then k (g, s) else None)"
  by pat_completeness auto
termination
  by (relation "(\<lambda>(i, r, k, g, s). size r) <*mlex*> measure (\<lambda>(i, r, k, g, s). length s)")
     (auto simp: wf_mlex mlex_less mlex_leq)

declare m.simps [simp del]

text \<open>\<open>cat [a, b, c]\<close> is the pattern \<open>abc\<close>; \<open>Opt r\<close> is \<open>r?\<close>; \<open>Plus r\<close> is \<open>r+\<close>.\<close>

fun cat :: "regex list \<Rightarrow> regex" where
  "cat [] = Lit []"
| "cat [r] = r"
| "cat (r # rs) = Seq r (cat rs)"

definition Opt :: "regex \<Rightarrow> regex" where
  "Opt r = Alt r (Lit [])"

definition Plus :: "regex \<Rightarrow> regex" where
  "Plus r = Seq r (Star r)"

text \<open>
  \<open>binds r\<close>: every way through the pattern \<open>r\<close> passes its capturing group, so that
  \<open>m[1]\<close> of a match is a text and not \<open>undefined\<close>.
\<close>

fun binds :: "regex \<Rightarrow> bool" where
  "binds (Group r) = True"
| "binds (Seq a b) = (binds a \<or> binds b)"
| "binds (Alt a b) = (binds a \<and> binds b)"
| "binds r = False"

text \<open>A pattern that starts with a literal cannot match where the text starts otherwise.\<close>

fun can_start :: "bool \<Rightarrow> regex \<Rightarrow> char \<Rightarrow> bool" where
  "can_start i (Lit (p # ps)) c = chr_eq i p c"
| "can_start i (Seq a b) c = can_start i a c"
| "can_start i (Alt a b) c = (can_start i a c \<or> can_start i b c)"
| "can_start i r c = True"

text \<open>
  The match object of \<open>RegExp.prototype.exec\<close>: \<open>whole\<close> is \<open>m[0]\<close>, \<open>group1\<close> is
  \<open>m[1]\<close> (\<open>None\<close> for \<open>undefined\<close>), \<open>pre\<close> and \<open>post\<close> are the text before and
  after the match.
\<close>

record js_match =
  whole :: string
  group1 :: "string option"
  pre :: string
  post :: string

definition match_here :: "bool \<Rightarrow> regex \<Rightarrow> string \<Rightarrow> js_match option" where
  "match_here i re s =
     (case m i re Some (None, s) of
        None \<Rightarrow> None
      | Some (g, rest) \<Rightarrow>
          Some \<lparr>whole = span_text (s, rest), group1 = map_option span_text g,
                pre = [], post = rest\<rparr>)"

text \<open>\<open>s.match(re)\<close> for a pattern without the \<open>g\<close> flag: the leftmost match.\<close>

fun search :: "bool \<Rightarrow> regex \<Rightarrow> string \<Rightarrow> js_match option" where
  "search i re s =
     (case match_here i re s of
        Some r \<Rightarrow> Some r
      | None \<Rightarrow>
          (case s of
             [] \<Rightarrow> None
           | x # t \<Rightarrow> map_option (\<lambda>r. r\<lparr>pre := x # pre r\<rparr>) (search i re t)))"

declare search.simps [simp del]

lemma lit_match_suffix: "lit_match i l s = Some t \<Longrightarrow> suffix t s"
  by (induction i l s rule: lit_match.induct) (auto split: if_splits intro: suffix_ConsI)

lemma m_suffix:
  "m i r k st = Some x \<Longrightarrow> \<exists>g' s'. k (g', s') = Some x \<and> suffix s' (snd st)"
proof (induction i r k st arbitrary: x rule: m.induct)
  case (1 i l k g s)
  then show ?case
    by (auto simp: m.simps split: option.splits dest: lit_match_suffix)
next
  case (2 i k g s)
  then show ?case
    by (auto simp: m.simps split: list.splits if_splits intro: suffix_ConsI)
next
  case (3 i cs k g s)
  then show ?case
    by (auto simp: m.simps split: list.splits if_splits intro: suffix_ConsI)
next
  case (4 i cs k g s)
  then show ?case
    by (auto simp: m.simps split: list.splits if_splits intro: suffix_ConsI)
next
  case (5 i a b k st)
  from "5.IH"(2)[of x] "5.prems"
  obtain g1 s1 where a: "m i b k (g1, s1) = Some x" and s1: "suffix s1 (snd st)"
    by (auto simp: m.simps)
  from "5.IH"(1)[OF a] obtain g2 s2 where "k (g2, s2) = Some x" and "suffix s2 s1"
    by auto
  with s1 show ?case
    by (auto intro: suffix_order.trans)
next
  case (6 i a b k st)
  then show ?case
    by (auto simp: m.simps split: option.splits)
next
  case (7 i r k g s)
  let ?K = "\<lambda>(g', s'). if length s' < length s then m i (Star r) k (g', s') else None"
  show ?case
  proof (cases "m i r ?K (g, s)")
    case None
    with "7.prems" show ?thesis by (auto simp: m.simps)
  next
    case (Some y)
    with "7.prems" have y: "y = x" by (simp add: m.simps)
    from "7.IH"(2)[of x] Some y
    obtain g1 s1 where k1: "?K (g1, s1) = Some x" and s1: "suffix s1 s"
      by auto
    then have len: "length s1 < length s" and st: "m i (Star r) k (g1, s1) = Some x"
      by (auto split: if_splits)
    from "7.IH"(1)[OF len st] obtain g2 s2 where "k (g2, s2) = Some x" and "suffix s2 s1"
      by auto
    with s1 show ?thesis
      by (auto intro: suffix_order.trans)
  qed
next
  case (8 i r k g s)
  let ?K = "\<lambda>(g', s'). if length s' < length s then m i (Lazy r) k (g', s') else None"
  show ?case
  proof (cases "k (g, s)")
    case (Some y)
    with "8.prems" show ?thesis by (auto simp: m.simps)
  next
    case None
    with "8.prems" have r: "m i r ?K (g, s) = Some x" by (simp add: m.simps)
    from "8.IH"(2)[OF None r]
    obtain g1 s1 where k1: "?K (g1, s1) = Some x" and s1: "suffix s1 s"
      by auto
    then have len: "length s1 < length s" and st: "m i (Lazy r) k (g1, s1) = Some x"
      by (auto split: if_splits)
    from "8.IH"(1)[OF None len st] obtain g2 s2 where "k (g2, s2) = Some x" and "suffix s2 s1"
      by auto
    with s1 show ?thesis
      by (auto intro: suffix_order.trans)
  qed
next
  case (9 i r k g s)
  from "9.IH"[of x] "9.prems" show ?case
    by (auto simp: m.simps)
next
  case (10 i r k st)
  then show ?case
    by (cases st) (auto simp: m.simps split: option.splits)
next
  case (11 i k g s)
  then show ?case
    by (auto simp: m.simps split: if_splits)
qed


lemma match_here_decomp:
  assumes "match_here i re s = Some r"
  shows "s = whole r @ post r \<and> pre r = []"
proof -
  from assms obtain g rest where mm: "m i re Some (None, s) = Some (g, rest)"
    and r: "r = \<lparr>whole = span_text (s, rest), group1 = map_option span_text g, pre = [], post = rest\<rparr>"
    by (auto simp: match_here_def split: option.splits)
  from m_suffix[OF mm] have "suffix rest s" by auto
  then obtain zs where "s = zs @ rest" by (auto simp: suffix_def)
  with r show ?thesis by (simp add: span_text_def)
qed

lemma search_decomp: "search i re s = Some r \<Longrightarrow> s = pre r @ whole r @ post r"
proof (induction s arbitrary: r)
  case Nil
  then show ?case
    by (subst (asm) search.simps) (auto split: option.splits dest: match_here_decomp)
next
  case (Cons x t)
  show ?case
  proof (cases "match_here i re (x # t)")
    case (Some r')
    with Cons.prems have "r' = r" by (subst (asm) search.simps) simp
    with Some show ?thesis by (auto dest: match_here_decomp)
  next
    case None
    with Cons.prems obtain r' where "search i re t = Some r'" and "r = r'\<lparr>pre := x # pre r'\<rparr>"
      by (subst (asm) search.simps) auto
    with Cons.IH[of r'] show ?thesis by simp
  qed
qed

text \<open>
  \<open>s.match(re)\<close> for a pattern with the \<open>g\<close> flag: all matches from left to right, each
  search starting where the match before it ended (one code unit further after an empty
  match).
\<close>

function match_all :: "bool \<Rightarrow> regex \<Rightarrow> string \<Rightarrow> js_match list" where
  "match_all i re s =
     (case search i re s of
        None \<Rightarrow> []
      | Some r \<Rightarrow>
          r # (if whole r = [] then (case post r of [] \<Rightarrow> [] | c # t \<Rightarrow> match_all i re t)
               else match_all i re (post r)))"
  by pat_completeness auto
termination
proof (relation "measure (\<lambda>(i, re, s). length s)")
  show "wf (measure (\<lambda>(i, re, s). length s))" by simp
next
  fix i re s r c t
  assume "search i re s = Some r" "post r = c # t"
  then show "((i, re, t), (i, re, s)) \<in> measure (\<lambda>(i, re, s). length s)"
    by (auto dest!: search_decomp)
next
  fix i re s r
  assume "search i re s = Some r" "whole r \<noteq> []"
  then show "((i, re, post r), (i, re, s)) \<in> measure (\<lambda>(i, re, s). length s)"
    by (auto dest!: search_decomp)
qed

declare match_all.simps [simp del]

text \<open>\<open>s.match(re) || []\<close> for a pattern with the \<open>g\<close> flag: the matched texts.\<close>

definition matches :: "bool \<Rightarrow> regex \<Rightarrow> string \<Rightarrow> string list" where
  "matches i re s = map whole (match_all i re s)"

text \<open>\<open>s.replace(re, rep)\<close> for a pattern with the \<open>g\<close> flag and a text \<open>new\<close> without \<open>$\<close>.\<close>

function replace_all :: "bool \<Rightarrow> regex \<Rightarrow> string \<Rightarrow> string \<Rightarrow> string" where
  "replace_all i re new s =
     (case search i re s of
        None \<Rightarrow> s
      | Some r \<Rightarrow>
          pre r @ new @
          (if whole r = [] then (case post r of [] \<Rightarrow> [] | c # t \<Rightarrow> c # replace_all i re new t)
           else replace_all i re new (post r)))"
  by pat_completeness auto
termination
proof (relation "measure (\<lambda>(i, re, new, s). length s)")
  show "wf (measure (\<lambda>(i, re, new, s). length s))" by simp
next
  fix i re new s r c t
  assume "search i re s = Some r" "post r = c # t"
  then show "((i, re, new, t), (i, re, new, s)) \<in> measure (\<lambda>(i, re, new, s). length s)"
    by (auto dest!: search_decomp)
next
  fix i re new s r
  assume "search i re s = Some r" "whole r \<noteq> []"
  then show "((i, re, new, post r), (i, re, new, s)) \<in> measure (\<lambda>(i, re, new, s). length s)"
    by (auto dest!: search_decomp)
qed

declare replace_all.simps [simp del]

text \<open>\<open>s.split(/\s+/)\<close>.\<close>

function split_ws :: "string \<Rightarrow> string list" where
  "split_ws s =
     (let w = takeWhile (\<lambda>c. \<not> isSpace c) s; rest = dropWhile (\<lambda>c. \<not> isSpace c) s
      in if rest = [] then [w] else w # split_ws (dropWhile isSpace rest))"
  by pat_completeness auto
termination
proof (relation "measure length")
  show "wf (measure length)" by simp
next
  fix s w rest
  assume a: "rest = dropWhile (\<lambda>c. \<not> isSpace c) s" "rest \<noteq> []"
  from a(2) obtain c t where r: "rest = c # t"
    by (cases rest) auto
  from a have "isSpace (hd rest)"
    using hd_dropWhile[of "\<lambda>c. \<not> isSpace c" s] by simp
  with r have "isSpace c" by simp
  with r have "length (dropWhile isSpace rest) \<le> length t"
    by (simp add: length_dropWhile_le)
  moreover have "length (c # t) \<le> length s"
    using length_dropWhile_le[of "\<lambda>c. \<not> isSpace c" s] r a by simp
  ultimately show "(dropWhile isSpace rest, s) \<in> measure length" by simp
qed

declare split_ws.simps [simp del]


section \<open>The signal extractors (src/unnamed/part_000)\<close>

subsection \<open>Patterns\<close>

text \<open>The classes \<^verbatim>\<open>["|']\<close>, \<^verbatim>\<open>[^>]\<close> and \<^verbatim>\<open>[\s\S]\<close>.\<close>

definition quote :: "cls list" where
  "quote = [CChar (CHR 0x22), CChar CHR ''|'', CChar (CHR 0x27)]"

definition notGt :: regex where
  "notGt = NotSet [CChar CHR ''>'']"

definition anyChar :: regex where
  "anyChar = Set [CSpace, CNotSpace]"

text \<open>
  \<open>elem_re ''h1''\<close> is \<^verbatim>\<open><h1[^>]*>(.*?)<\/h1>\<close>, and
  \<open>elem_attr_re ''div'' key body\<close> is \<^verbatim>\<open><div[^>]*key[^>]*>(body*?)<\/div>\<close>.
\<close>

definition elem_re :: "string \<Rightarrow> regex" where
  "elem_re tag =
     cat [Lit (''<'' @ tag), Star notGt, Lit ''>'', Group (Lazy Dot), Lit (''</'' @ tag @ ''>'')]"

definition elem_attr_re :: "string \<Rightarrow> regex \<Rightarrow> regex \<Rightarrow> regex" where
  "elem_attr_re tag key body =
     cat [Lit (''<'' @ tag), Star notGt, key, Star notGt, Lit ''>'', Group (Lazy body),
          Lit (''</'' @ tag @ ''>'')]"

text \<open>\<^verbatim>\<open>attr=["|'](.*?)["|']\<close>.\<close>

definition attr_re :: "string \<Rightarrow> regex" where
  "attr_re name = cat [Lit (name @ ''=''), Set quote, Group (Lazy Dot), Set quote]"

text \<open>\<^verbatim>\<open>class=["|']name["|'][^>]*>(.*?)<\/tag>\<close> (lines 58 and 59).\<close>

definition price_class_re :: "string \<Rightarrow> string \<Rightarrow> regex" where
  "price_class_re name tag =
     cat [Lit ''class='', Set quote, Lit name, Set quote, Star notGt, Lit ''>'', Group (Lazy Dot),
          Lit (''</'' @ tag @ ''>'')]"

text \<open>\<^verbatim>\<open>\$(\d+\.?\d*)\<close> (line 60).\<close>

definition re_price_dollar :: regex where
  "re_price_dollar =
     cat [Lit ''$'', Group (cat [Plus (Set [CDigit]), Opt (Lit ''.''), Star (Set [CDigit])])]"

text \<open>\<^verbatim>\<open><meta[^>]*key[^>]*content=["|'](.*?)["|']\<close> (lines 80 and 89).\<close>

definition meta_re :: "string \<Rightarrow> regex" where
  "meta_re key =
     cat [Lit ''<meta'', Star notGt, Lit key, Star notGt, Lit ''content='', Set quote,
          Group (Lazy Dot), Set quote]"

text \<open>\<^verbatim>\<open><[^>]*>\<close> (lines 83, 92, 149 and 223).\<close>

definition re_tag :: regex where
  "re_tag = cat [Lit ''<'', Star notGt, Lit ''>'']"

text \<open>\<^verbatim>\<open>disabled|sold[\s-]*out|out[\s-]*of[\s-]*stock|unavailable\<close> (lines 144 and 218).\<close>

definition sep :: regex where
  "sep = Star (Set [CSpace, CChar CHR ''-''])"

definition re_unavailable :: regex where
  "re_unavailable =
     Alt (Lit ''disabled'')
      (Alt (cat [Lit ''sold'', sep, Lit ''out''])
        (Alt (cat [Lit ''out'', sep, Lit ''of'', sep, Lit ''stock'']) (Lit ''unavailable'')))"

text \<open>\<^verbatim>\<open>^\d+$\<close> (line 161); the \<open>^\<close> is the use of \<open>match_here\<close> in \<open>all_digits\<close>.\<close>

definition re_digits :: regex where
  "re_digits = cat [Plus (Set [CDigit]), Eol]"

definition all_digits :: "string \<Rightarrow> bool" where
  "all_digits v = (match_here False re_digits v \<noteq> None)"

text \<open>\<^verbatim>\<open>style=["|'].*?background(?:-color)?:\s*(.*?)[;"|']\<close> (line 232).\<close>

definition re_style :: regex where
  "re_style =
     cat [Lit ''style='', Set quote, Lazy Dot, Lit ''background'', Opt (Lit ''-color''), Lit '':'',
          Star (Set [CSpace]), Group (Lazy Dot), Set (CChar CHR '';'' # quote)]"

text \<open>The alternations \<^verbatim>\<open>(?:size|variant)\<close> and \<^verbatim>\<open>(?:color|colour)\<close>.\<close>

definition size_key :: regex where
  "size_key = Alt (Lit ''size'') (Lit ''variant'')"

definition color_key :: regex where
  "color_key = Alt (Lit ''color'') (Lit ''colour'')"

subsection \<open>Size and colour options\<close>

text \<open>
  \<open>(html.match(re) || [])[1]\<close> under \<open>.filter(Boolean)\<close>: the first group of the
  leftmost match, kept when it is a non-empty text.
\<close>

definition container :: "regex \<Rightarrow> string \<Rightarrow> string list" where
  "container re html =
     (case search True re html of
        None \<Rightarrow> []
      | Some r \<Rightarrow> (case group1 r of None \<Rightarrow> [] | Some g \<Rightarrow> if g = [] then [] else [g]))"

text \<open>A group that is defined and not the empty text (\<open>mm && mm[1]\<close>).\<close>

definition truthy_group :: "js_match option \<Rightarrow> string option" where
  "truthy_group mm =
     (case mm of
        None \<Rightarrow> None
      | Some r \<Rightarrow> (case group1 r of None \<Rightarrow> None | Some g \<Rightarrow> if g = [] then None else Some g))"

definition sizeContainers :: "string \<Rightarrow> string list" where
  "sizeContainers html =
     container (elem_attr_re ''select'' size_key anyChar) html @
     container (elem_attr_re ''div'' size_key anyChar) html @
     container (elem_attr_re ''ul'' size_key anyChar) html"

definition sizeItems :: "string \<Rightarrow> string list" where
  "sizeItems c =
     matches True (elem_re ''option'') c @
     matches True (elem_re ''li'') c @
     matches True (elem_re ''button'') c @
     matches True (elem_re ''a'') c @
     matches True (elem_attr_re ''div'' (Lit ''option'') Dot) c"

text \<open>\<open>option.replace(/<[^>]*>/g, '').trim()\<close>.\<close>

definition visible_text :: "string \<Rightarrow> string" where
  "visible_text option = trim (replace_all False re_tag [] option)"

definition unavailable :: "string \<Rightarrow> bool" where
  "unavailable option = (search True re_unavailable option \<noteq> None)"

definition placeholder :: "string \<Rightarrow> bool" where
  "placeholder text = (str_includes text ''Select'' \<or> str_includes text ''Choose'')"

text \<open>The body of the loop over the options (lines 142 to 167).\<close>

definition sizeStep :: "bool \<Rightarrow> string list \<Rightarrow> string \<Rightarrow> string list" where
  "sizeStep includeUnavailable sizeOptions option =
     (if \<not> includeUnavailable \<and> unavailable option then sizeOptions
      else let text = visible_text option in
        if text = [] \<or> placeholder text then sizeOptions
        else (case truthy_group (search True (attr_re ''value'') option) of
                None \<Rightarrow> sizeOptions @ [text]
              | Some v \<Rightarrow>
                  if \<not> all_digits v \<and> \<not> str_includes v ''select'' \<and> length v < 10
                  then sizeOptions @ [text, v]
                  else sizeOptions @ [text]))"

text \<open>The filter of the last statement (lines 171 to 176 and 261 to 266).\<close>

definition keep :: "string \<Rightarrow> bool" where
  "keep x = (x \<noteq> [] \<and> length x < 20 \<and> \<not> str_includes x ''select'' \<and> \<not> str_includes x ''choose'')"

definition sizeCollected :: "string \<Rightarrow> bool \<Rightarrow> string list" where
  "sizeCollected html includeUnavailable =
     foldl (\<lambda>acc c. foldl (sizeStep includeUnavailable) acc (sizeItems c)) [] (sizeContainers html)"

definition extractSizeOptions :: "string \<Rightarrow> bool \<Rightarrow> string list" where
  "extractSizeOptions html includeUnavailable =
     filter keep (newSet (sizeCollected html includeUnavailable))"

definition colorContainers :: "string \<Rightarrow> string list" where
  "colorContainers html =
     container (elem_attr_re ''select'' color_key anyChar) html @
     container (elem_attr_re ''div'' color_key anyChar) html @
     container (elem_attr_re ''ul'' color_key anyChar) html @
     container (elem_attr_re ''div'' (Lit ''swatch'') anyChar) html"

definition colorKeywords :: "string list" where
  "colorKeywords =
     [''red'', ''blue'', ''green'', ''yellow'', ''orange'', ''purple'', ''pink'', ''brown'', ''black'',
      ''white'', ''gray'', ''grey'', ''navy'', ''teal'', ''gold'', ''silver'', ''beige'', ''burgundy'',
      ''turquoise'', ''lavender'', ''cream'', ''khaki'', ''olive'']"

definition colorItems :: "string \<Rightarrow> string list" where
  "colorItems c =
     matches True (elem_re ''option'') c @
     matches True (elem_re ''li'') c @
     matches True (elem_re ''button'') c @
     matches True (elem_re ''a'') c @
     matches True (elem_attr_re ''div'' (Lit ''swatch'') Dot) c @
     matches True (elem_attr_re ''span'' (Lit ''color'') Dot) c"

text \<open>\<open>colorKeywords.some(color => x.toLowerCase().includes(color))\<close> and \<open>.find\<close>.\<close>

definition names_color :: "string \<Rightarrow> bool" where
  "names_color x = list_ex (\<lambda>color. str_includes (toLowerCase x) color) colorKeywords"

definition color_named :: "string \<Rightarrow> string option" where
  "color_named x = find (\<lambda>color. str_includes (toLowerCase x) color) colorKeywords"

text \<open>The body of the loop over the class names (lines 241 to 249).\<close>

definition classStep :: "string list \<Rightarrow> string \<Rightarrow> string list" where
  "classStep colorOptions cls =
     (if names_color cls
      then (case color_named cls of
              None \<Rightarrow> colorOptions
            | Some colorName \<Rightarrow>
                if colorName \<noteq> [] \<and> colorName \<notin> set colorOptions then colorOptions @ [colorName]
                else colorOptions)
      else colorOptions)"

text \<open>The body of the loop over the options (lines 216 to 257).\<close>

definition colorStep :: "string list \<Rightarrow> string \<Rightarrow> string list" where
  "colorStep colorOptions option =
     (if unavailable option then colorOptions
      else let
        text = visible_text option;
        a1 = (if text \<noteq> [] \<and> \<not> placeholder text \<and> (names_color text \<or> length text < 15)
              then colorOptions @ [text] else colorOptions);
        a2 = (case truthy_group (search True re_style option) of
                None \<Rightarrow> a1 | Some v \<Rightarrow> a1 @ [trim v]);
        a3 = (case truthy_group (search True (attr_re ''class'') option) of
                None \<Rightarrow> a2 | Some v \<Rightarrow> foldl classStep a2 (split_ws v));
        a4 = (case truthy_group (search True (attr_re ''data-color'') option) of
                None \<Rightarrow> a3 | Some v \<Rightarrow> a3 @ [v])
      in a4)"

definition colorCollected :: "string \<Rightarrow> string list" where
  "colorCollected html =
     foldl (\<lambda>acc c. foldl colorStep acc (colorItems c)) [] (colorContainers html)"

definition extractColorOptions :: "string \<Rightarrow> string list" where
  "extractColorOptions html = filter keep (newSet (colorCollected html))"


subsection \<open>The prompt assembler\<close>

text \<open>
  A thrown JavaScript error, with its message. The texts of the \<open>TypeError\<close>s are
  those of V8.
\<close>

datatype js_error = Error string

definition undefined_read :: "string \<Rightarrow> js_error" where
  "undefined_read prop =
     Error (''Cannot read properties of undefined (reading '' @ [CHR 0x27] @ prop @ [CHR 0x27] @ '')'')"

definition null_read :: "string \<Rightarrow> js_error" where
  "null_read prop =
     Error (''Cannot read properties of null (reading '' @ [CHR 0x27] @ prop @ [CHR 0x27] @ '')'')"

text \<open>\<open>a || b\<close> on two match results.\<close>

definition orMatch :: "js_match option \<Rightarrow> js_match option \<Rightarrow> js_match option" where
  "orMatch a b = (case a of Some r \<Rightarrow> Some r | None \<Rightarrow> b)"

definition titleMatch :: "string \<Rightarrow> js_match option" where
  "titleMatch html =
     orMatch (search True (elem_re ''h1'') html)
       (orMatch (search True (elem_re ''title'') html)
          (search True (elem_attr_re ''div'' (Lit ''product-title'') Dot) html))"

definition priceMatch :: "string \<Rightarrow> js_match option" where
  "priceMatch html =
     orMatch (search True (price_class_re ''price'' ''span'') html)
       (orMatch (search True (price_class_re ''product-price'' ''div'') html)
          (search True re_price_dollar html))"

definition descMatch :: "string \<Rightarrow> js_match option" where
  "descMatch html =
     orMatch
       (search True
          (elem_attr_re ''div'' (Alt (Lit ''product-description'') (Lit ''description'')) anyChar) html)
       (search True (meta_re ''description'') html)"

definition catMatch :: "string \<Rightarrow> js_match option" where
  "catMatch html =
     orMatch (search True (elem_attr_re ''nav'' (Lit ''breadcrumb'') anyChar) html)
       (search True (meta_re ''product:category'') html)"

text \<open>
  The lines that each field adds to \<open>productInfo\<close> (none or one). A method called on
  \<open>mm[1]\<close> throws when the group is \<open>undefined\<close>.
\<close>

definition titleInfo :: "string \<Rightarrow> js_error + string list" where
  "titleInfo html =
     (case titleMatch html of
        None \<Rightarrow> Inr []
      | Some r \<Rightarrow>
          (case group1 r of
             None \<Rightarrow> Inl (undefined_read ''trim'')
           | Some g \<Rightarrow> Inr [''PRODUCT TITLE: '' @ trim g]))"

definition priceInfo :: "string \<Rightarrow> string list" where
  "priceInfo html =
     (case priceMatch html of
        None \<Rightarrow> []
      | Some r \<Rightarrow>
          [''PRODUCT PRICE: '' @
           (case group1 r of None \<Rightarrow> whole r | Some g \<Rightarrow> if g = [] then whole r else g)])"

definition sizeInfo :: "string \<Rightarrow> string list" where
  "sizeInfo html =
     (let availableSizes = extractSizeOptions html False
      in if length availableSizes > 0
         then [''AVAILABLE SIZE OPTIONS: '' @ join '', '' availableSizes] else [])"

definition colorInfo :: "string \<Rightarrow> string list" where
  "colorInfo html =
     (let availableColors = extractColorOptions html
      in if length availableColors > 0
         then [''AVAILABLE COLOR OPTIONS: '' @ join '', '' availableColors] else [])"

definition strip_tags :: "string \<Rightarrow> string" where
  "strip_tags g = trim (replace_all False re_tag '' '' g)"

definition descInfo :: "string \<Rightarrow> js_error + string list" where
  "descInfo html =
     (case descMatch html of
        None \<Rightarrow> Inr []
      | Some r \<Rightarrow>
          (case group1 r of
             None \<Rightarrow> Inl (undefined_read ''replace'')
           | Some g \<Rightarrow> Inr [''PRODUCT DESCRIPTION: '' @ take 200 (strip_tags g) @ ''...'']))"

definition catInfo :: "string \<Rightarrow> js_error + string list" where
  "catInfo html =
     (case catMatch html of
        None \<Rightarrow> Inr []
      | Some r \<Rightarrow>
          (case group1 r of
             None \<Rightarrow> Inl (undefined_read ''replace'')
           | Some g \<Rightarrow> Inr [''PRODUCT CATEGORY: '' @ strip_tags g]))"

definition productInfo :: "string \<Rightarrow> js_error + string list" where
  "productInfo html =
     (case titleInfo html of
        Inl e \<Rightarrow> Inl e
      | Inr t \<Rightarrow>
          (let p = priceInfo html; s = sizeInfo html; c = colorInfo html
           in case descInfo html of
                Inl e \<Rightarrow> Inl e
              | Inr d \<Rightarrow>
                  (case catInfo html of
                     Inl e \<Rightarrow> Inl e
                   | Inr k \<Rightarrow> Inr (t @ p @ s @ c @ d @ k))))"

definition nl :: string where
  "nl = [CHR 0x0A]"

definition structured :: "string \<Rightarrow> string list \<Rightarrow> string \<Rightarrow> string" where
  "structured url info html =
     nl @ ''PRODUCT URL: '' @ url @ nl @ join nl info @ nl @ nl @
     ''ADDITIONAL HTML SNIPPETS:'' @ nl @ take 2000 html @ nl @ ''    ''"

definition raw :: "string \<Rightarrow> string \<Rightarrow> string" where
  "raw url html = nl @ ''PRODUCT URL: '' @ url @ nl @ ''RAW HTML:'' @ nl @ take 4000 html @ nl @ ''  ''"

definition extractProductInfo :: "string \<Rightarrow> string \<Rightarrow> js_error + string" where
  "extractProductInfo html url =
     (case productInfo html of
        Inl e \<Rightarrow> Inl e
      | Inr info \<Rightarrow> Inr (if length info \<ge> 2 then structured url info html else raw url html))"

subsection \<open>The markup reducer\<close>

text \<open>
  \<^verbatim>\<open><script\b[^<]*(?:(?!<\/script>)<[^<]*)*<\/script>\<close>, and the same for \<open>style\<close> and
  \<open>svg\<close>. The \<^verbatim>\<open>\b\<close> stands after a letter, so it holds when no word character
  follows.
\<close>

definition notLt :: regex where
  "notLt = NotSet [CChar CHR ''<'']"

definition block_re :: "string \<Rightarrow> regex" where
  "block_re tag =
     cat [Lit (''<'' @ tag), NotAhead (Set [CWord]), Star notLt,
          Star (cat [NotAhead (Lit (''</'' @ tag @ ''>'')), Lit ''<'', Star notLt]),
          Lit (''</'' @ tag @ ''>'')]"

text \<open>\<^verbatim>\<open><!--[\s\S]*?-->\<close> and \<^verbatim>\<open>\s{2,}\<close>.\<close>

definition re_comment :: regex where
  "re_comment = cat [Lit ''<!--'', Lazy anyChar, Lit ''-->'']"

definition re_spaces :: regex where
  "re_spaces = cat [Set [CSpace], Set [CSpace], Star (Set [CSpace])]"

definition reduce :: "string \<Rightarrow> string" where
  "reduce html =
     replace_all False re_spaces '' ''
       (replace_all False re_comment []
          (replace_all True (block_re ''svg'') []
             (replace_all True (block_re ''style'') []
                (replace_all True (block_re ''script'') [] html))))"

text \<open>
  What \<open>axios\<close> hands back as \<open>response.data\<close>: the text of the page, or the value
  parsed from a JSON body. \<open>html.replace\<close> throws on the latter.
\<close>

datatype page_data = Markup string | NullData | OtherData

definition cleanHtml :: "page_data \<Rightarrow> js_error + string" where
  "cleanHtml html =
     (case html of
        Markup t \<Rightarrow> Inr (reduce t)
      | NullData \<Rightarrow> Inl (null_read ''replace'')
      | OtherData \<Rightarrow> Inl (Error ''html.replace is not a function''))"

section \<open>The completion client\<close>

text \<open>
  JSON values, as \<open>JSON.parse\<close> returns them and \<open>res.json\<close> sends them. A number is
  the rational it denotes.
\<close>

datatype json =
    JNull
  | JBool bool
  | JNum rat
  | JStr string
  | JArr "json list"
  | JObj "(string \<times> json) list"

text \<open>
  The argument of \<open>openai.chat.completions.create\<close> (with the key the client was made
  with), and of its result the \<open>message.content\<close> of each choice (\<open>None\<close> for
  \<open>null\<close>).
\<close>

record chat_request =
  apiKey :: string
  model :: string
  system_content :: string
  user_content :: string
  json_object :: bool
  max_tokens :: nat
  temperature :: rat

record chat_response =
  choices :: "string option list"

text \<open>
  The world outside the program: the page fetch of \<open>axios.get\<close>, the completion
  endpoint, and the \<open>JSON.parse\<close> of the runtime (\<open>None\<close> when it throws). \<open>Inl\<close> is
  a thrown error.
\<close>

record env =
  axios_get :: "string \<Rightarrow> js_error + page_data"
  chat_create :: "chat_request \<Rightarrow> js_error + chat_response"
  JSON_parse :: "string \<Rightarrow> json option"

text \<open>The outbound calls a request makes, in order.\<close>

datatype call = HttpGet string | ChatCompletion chat_request

text \<open>\<open>response.choices[0].message.content\<close>, and \<open>content.substring\<close> of line 325.\<close>

definition response_content :: "chat_response \<Rightarrow> js_error + string" where
  "response_content response =
     (case choices response of
        [] \<Rightarrow> Inl (undefined_read ''message'')
      | c # cs \<Rightarrow> (case c of None \<Rightarrow> Inl (null_read ''substring'') | Some content \<Rightarrow> Inr content))"

text \<open>\<^verbatim>\<open>\{[\s\S]*\}\<close> (line 334).\<close>

definition re_json :: regex where
  "re_json = cat [Lit ''{'', Star anyChar, Lit ''}'']"

text \<open>
  The span that the pattern of line 334 finds, said without the pattern: the text from
  the first \<open>{\<close> through the last \<open>}\<close>, when a \<open>}\<close> stands after the first \<open>{\<close>.
  \<open>after_last s\<close> is what follows the last \<open>}\<close> of \<open>s\<close>.
\<close>

definition brace_span :: "string \<Rightarrow> string option" where
  "brace_span s =
     (case dropWhile (\<lambda>c. c \<noteq> CHR ''{'') s of
        [] \<Rightarrow> None
      | b # t \<Rightarrow>
          if CHR ''}'' \<in> set t
          then Some (b # rev (dropWhile (\<lambda>c. c \<noteq> CHR ''}'') (rev t)))
          else None)"

definition after_last :: "string \<Rightarrow> string" where
  "after_last s = rev (takeWhile (\<lambda>c. c \<noteq> CHR ''}'') (rev s))"

subsection \<open>src/unnamed/part_000\<close>

definition staticFallback :: "string \<Rightarrow> json" where
  "staticFallback url =
     JObj [(''url'', JStr url),
           (''title'', JStr ''Product Title Not Extracted''),
           (''category'', JStr ''Unknown''),
           (''attributes'', JObj [(''colorOptions'', JArr []), (''sizeOptions'', JArr [])]),
           (''rawPrice'', JNum 0)]"

definition errorFallback :: "string \<Rightarrow> string \<Rightarrow> json" where
  "errorFallback url msg =
     JObj [(''url'', JStr url),
           (''title'', JStr (''Error: '' @ take 30 msg)),
           (''category'', JStr ''Unknown''),
           (''attributes'', JObj [(''colorOptions'', JArr []), (''sizeOptions'', JArr [])]),
           (''rawPrice'', JNum 0)]"

text \<open>The inner \<open>try\<close> (lines 328 to 355).\<close>

definition parseContent :: "env \<Rightarrow> string \<Rightarrow> string \<Rightarrow> json" where
  "parseContent e url content =
     (case JSON_parse e content of
        Some v \<Rightarrow> v
      | None \<Rightarrow>
          (case search False re_json content of
             None \<Rightarrow> staticFallback url
           | Some jsonMatch \<Rightarrow>
               (case JSON_parse e (whole jsonMatch) of
                  Some v \<Rightarrow> v
                | None \<Rightarrow> staticFallback url)))"

definition systemPrompt :: string where
  "systemPrompt =
     ''You are a product data extraction expert. Extract ONLY AVAILABLE product attributes from the HTML.'' @ nl @
     ''Your output must be ONLY valid JSON without any explanations.''"

definition userPrompt :: "string \<Rightarrow> string \<Rightarrow> string" where
  \<open>userPrompt url processedHtml =
     join nl
       [''Extract only AVAILABLE product information from this HTML.'',
        [],
        ''Use this exact JSON structure:'',
        ''{'',
        ''  "url": "'' @ url @ ''",'',
        ''  "title": "Product title",'',
        ''  "category": "Product category (use '' @ [CHR 0x27] @ ''Unknown'' @ [CHR 0x27] @
          '' only if absolutely no category information is found)",'',
        ''  "attributes": {'',
        ''    "colorOptions": ["ONLY available color options"],'',
        ''    "sizeOptions": ["ONLY available size options"]'',
        ''    // Include other available product attributes'',
        ''  },'',
        ''  "rawPrice": 0 // Numeric price without currency symbols'',
        ''}'',
        [],
        ''HTML Content:'',
        processedHtml]\<close>

definition chatRequest :: "string \<Rightarrow> string \<Rightarrow> string \<Rightarrow> chat_request" where
  "chatRequest key url processedHtml =
     \<lparr>apiKey = key, model = ''gpt-4'', system_content = systemPrompt,
      user_content = userPrompt url processedHtml, json_object = False,
      max_tokens = 1000, temperature = 1 / 10\<rparr>"

text \<open>The body of the outer \<open>try\<close> (lines 278 to 355), with the calls it makes.\<close>

definition completionStage :: "env \<Rightarrow> page_data \<Rightarrow> string \<Rightarrow> string \<Rightarrow> (js_error + json) \<times> call list" where
  "completionStage e html url key =
     (case cleanHtml html of
        Inl err \<Rightarrow> (Inl err, [])
      | Inr cleanedHtml \<Rightarrow>
          (case extractProductInfo cleanedHtml url of
             Inl err \<Rightarrow> (Inl err, [])
           | Inr processedHtml \<Rightarrow>
               (let request = chatRequest key url processedHtml
                in case chat_create e request of
                     Inl err \<Rightarrow> (Inl err, [ChatCompletion request])
                   | Inr response \<Rightarrow>
                       (case response_content response of
                          Inl err \<Rightarrow> (Inl err, [ChatCompletion request])
                        | Inr content \<Rightarrow>
                            (Inr (parseContent e url content), [ChatCompletion request])))))"

text \<open>\<open>extractProductData\<close> (lines 276 to 370): the \<open>catch\<close> turns an error into a record.\<close>

definition extractProductData :: "env \<Rightarrow> page_data \<Rightarrow> string \<Rightarrow> string \<Rightarrow> (js_error + json) \<times> call list" where
  "extractProductData e html url key =
     (case completionStage e html url key of
        (Inl (Error msg), calls) \<Rightarrow> (Inr (errorFallback url msg), calls)
      | (Inr v, calls) \<Rightarrow> (Inr v, calls))"

subsection \<open>src/productService.js\<close>

text \<open>The other \<open>extractProductData\<close> of the repository, and its \<open>simplifyHtml\<close>.\<close>

text \<open>\<^verbatim>\<open><h1[^>]*>.*?<\/h1>\<close> (line 56).\<close>

definition re_h1 :: regex where
  "re_h1 = cat [Lit ''<h1'', Star notGt, Lit ''>'', Lazy Dot, Lit ''</h1>'']"

text \<open>\<^verbatim>\<open><[^>]*(?:key)[^>]*>(?:(?!<\/div>)[\s\S])*<\/[^>]*>\<close> (lines 60 and 64).\<close>

definition keyed_re :: "regex \<Rightarrow> regex" where
  "keyed_re key =
     cat [Lit ''<'', Star notGt, key, Star notGt, Lit ''>'',
          Star (Seq (NotAhead (Lit ''</div>'')) anyChar), Lit ''</'', Star notGt, Lit ''>'']"

definition simplifyHtml :: "page_data \<Rightarrow> js_error + string" where
  "simplifyHtml html =
     (case cleanHtml html of
        Inl err \<Rightarrow> Inl err
      | Inr simplified \<Rightarrow>
          (let
             titleEls = (case search True (elem_re ''title'') simplified of
                           None \<Rightarrow> [] | Some r \<Rightarrow> [whole r]);
             h1Matches = matches True re_h1 simplified;
             priceMatches = matches True (keyed_re (Alt (Lit ''price'') (Lit ''cost''))) simplified;
             descMatches =
               matches True
                 (keyed_re (Alt (Lit ''description'') (Alt (Lit ''details'') (Lit ''features''))))
                 simplified;
             keyElements = titleEls @ h1Matches @ priceMatches @ take 2 descMatches
           in Inr (if length keyElements \<ge> 3 then take 3000 (join nl keyElements)
                   else take 3000 simplified)))"

definition staticFallback_ps :: "string \<Rightarrow> json" where
  "staticFallback_ps url =
     JObj [(''url'', JStr url),
           (''title'', JStr ''Product Title Not Extracted''),
           (''category'', JStr ''Unknown''),
           (''attributes'', JObj []),
           (''rawPrice'', JNum 0)]"

definition errorFallback_ps :: "string \<Rightarrow> string \<Rightarrow> json" where
  "errorFallback_ps url msg =
     JObj [(''url'', JStr url),
           (''title'', JStr (''Error: '' @ take 30 msg)),
           (''category'', JStr ''Error''),
           (''attributes'', JObj []),
           (''rawPrice'', JNum 0)]"

definition parseContent_ps :: "env \<Rightarrow> string \<Rightarrow> string \<Rightarrow> json" where
  "parseContent_ps e url content =
     (case JSON_parse e content of
        Some v \<Rightarrow> v
      | None \<Rightarrow>
          (case search False re_json content of
             None \<Rightarrow> staticFallback_ps url
           | Some jsonMatch \<Rightarrow>
               (case JSON_parse e (whole jsonMatch) of
                  Some v \<Rightarrow> v
                | None \<Rightarrow> staticFallback_ps url)))"

definition systemPrompt_ps :: string where
  "systemPrompt_ps =
     ''You are a JSON-only product information extractor. '' @ nl @
     ''          You MUST ALWAYS respond with ONLY a valid JSON object and nothing else.'' @ nl @
     ''          Do not include any explanation, preamble, or commentary.''"

definition userPrompt_ps :: "string \<Rightarrow> string \<Rightarrow> string" where
  \<open>userPrompt_ps url simplifiedHtml =
     join nl
       [''Extract basic product info from this HTML for: '' @ url,
        ''          '',
        ''          Respond with ONLY this JSON structure:'',
        ''          {'',
        ''            "url": "'' @ url @ ''",'',
        ''            "title": "Product title",'',
        ''            "category": "Product category if found, otherwise best guess",'',
        ''            "attributes": {'',
        ''              "colorOptions": ["array of colors if found"],'',
        ''              "sizeOptions": ["array of sizes if found"],'',
        ''              // other attributes you can find'',
        ''            },'',
        ''            "rawPrice": 29.99 // numeric price without currency symbol'',
        ''          }'',
        ''          '',
        ''          HTML: '' @ simplifiedHtml]\<close>

definition chatRequest_ps :: "string \<Rightarrow> string \<Rightarrow> string \<Rightarrow> chat_request" where
  "chatRequest_ps key url simplifiedHtml =
     \<lparr>apiKey = key, model = ''gpt-4'', system_content = systemPrompt_ps,
      user_content = userPrompt_ps url simplifiedHtml, json_object = True,
      max_tokens = 1000, temperature = 0\<rparr>"

definition completionStage_ps :: "env \<Rightarrow> page_data \<Rightarrow> string \<Rightarrow> string \<Rightarrow> (js_error + json) \<times> call list" where
  "completionStage_ps e html url key =
     (case simplifyHtml html of
        Inl err \<Rightarrow> (Inl err, [])
      | Inr simplifiedHtml \<Rightarrow>
          (let request = chatRequest_ps key url simplifiedHtml
           in case chat_create e request of
                Inl err \<Rightarrow> (Inl err, [ChatCompletion request])
              | Inr response \<Rightarrow>
                  (case response_content response of
                     Inl err \<Rightarrow> (Inl err, [ChatCompletion request])
                   | Inr content \<Rightarrow>
                       (Inr (parseContent_ps e url content), [ChatCompletion request]))))"

definition extractProductData_ps :: "env \<Rightarrow> page_data \<Rightarrow> string \<Rightarrow> string \<Rightarrow> (js_error + json) \<times> call list" where
  "extractProductData_ps e html url key =
     (case completionStage_ps e html url key of
        (Inl (Error msg), calls) \<Rightarrow> (Inr (errorFallback_ps url msg), calls)
      | (Inr v, calls) \<Rightarrow> (Inr v, calls))"

subsection \<open>The outcome of the two parses\<close>

text \<open>\<open>parsed e c v\<close>: one of the two parses of the text \<open>c\<close> succeeds, with the value \<open>v\<close>.\<close>

definition parsed :: "env \<Rightarrow> string \<Rightarrow> json \<Rightarrow> bool" where
  "parsed e c v =
     (case JSON_parse e c of
        Some w \<Rightarrow> v = w
      | None \<Rightarrow> (case brace_span c of None \<Rightarrow> False | Some sp \<Rightarrow> JSON_parse e sp = Some v))"

definition unparsable :: "env \<Rightarrow> string \<Rightarrow> bool" where
  "unparsable e c =
     (JSON_parse e c = None \<and>
      (case brace_span c of None \<Rightarrow> True | Some sp \<Rightarrow> JSON_parse e sp = None))"

section \<open>The HTTP endpoint (src/server.js)\<close>

text \<open>
  The two fields of the request body, \<open>None\<close> when the field is missing; the fields are
  texts, as the endpoint documents them.
\<close>

record request =
  req_url :: "string option"
  req_openaiApiKey :: "string option"

record response =
  res_status :: nat
  res_body :: json

text \<open>\<open>fetchProductPage\<close> (lines 10 to 23 of both service files).\<close>

definition fetchProductPage :: "env \<Rightarrow> string \<Rightarrow> (js_error + page_data) \<times> call list" where
  "fetchProductPage e url =
     (case axios_get e url of
        Inl (Error msg) \<Rightarrow> (Inl (Error (''Failed to fetch product page: '' @ msg)), [HttpGet url])
      | Inr d \<Rightarrow> (Inr d, [HttpGet url]))"

definition missingParameters :: response where
  "missingParameters =
     \<lparr>res_status = 400,
      res_body = JObj [(''error'', JStr ''Missing required parameters: url and openaiApiKey are required'')]\<rparr>"

definition serverError :: "string \<Rightarrow> response" where
  "serverError msg =
     \<lparr>res_status = 500,
      res_body = JObj [(''error'', JStr ''Failed to process product URL''), (''message'', JStr msg)]\<rparr>"

text \<open>
  The handler of \<open>POST /parse-product\<close> (lines 21 to 47), over the \<open>extractProductData\<close>
  that \<open>require('./productService')\<close> gives it. \<open>res.json\<close> answers with status 200.
\<close>

definition parse_product ::
  "(env \<Rightarrow> page_data \<Rightarrow> string \<Rightarrow> string \<Rightarrow> (js_error + json) \<times> call list) \<Rightarrow>
   env \<Rightarrow> request \<Rightarrow> response \<times> call list" where
  "parse_product impl e req =
     (case (req_url req, req_openaiApiKey req) of
        (Some url, Some key) \<Rightarrow>
          if url = [] \<or> key = [] then (missingParameters, [])
          else (case fetchProductPage e url of
                  (Inl (Error msg), calls) \<Rightarrow> (serverError msg, calls)
                | (Inr html, calls) \<Rightarrow>
                    (case impl e html url key of
                       (Inl (Error msg), calls') \<Rightarrow> (serverError msg, calls @ calls')
                     | (Inr productData, calls') \<Rightarrow>
                         (\<lparr>res_status = 200, res_body = productData\<rparr>, calls @ calls')))
      | _ \<Rightarrow> (missingParameters, []))"

section \<open>Examples\<close>

text \<open>
  Concrete worlds and requests, on which the theorems below are instantiated. In
  \<open>offline\<close> the page fetch fails with a DNS error. In \<open>answering page reply parse\<close> the
  fetch returns \<open>page\<close>, the completion endpoint answers with one choice whose content is
  \<open>reply\<close>, and \<open>JSON.parse\<close> is \<open>parse\<close>. In \<open>refusing page msg\<close> the completion call
  throws an error with the message \<open>msg\<close>.
\<close>

definition offline :: env where
  "offline =
     \<lparr>axios_get = (\<lambda>u. Inl (Error ''getaddrinfo ENOTFOUND shop.invalid'')),
      chat_create = (\<lambda>r. Inl (Error ''Connection error.'')),
      JSON_parse = (\<lambda>s. None)\<rparr>"

definition answering :: "page_data \<Rightarrow> string \<Rightarrow> (string \<Rightarrow> json option) \<Rightarrow> env" where
  "answering page reply parse =
     \<lparr>axios_get = (\<lambda>u. Inr page),
      chat_create = (\<lambda>r. Inr \<lparr>choices = [Some reply]\<rparr>),
      JSON_parse = parse\<rparr>"

definition refusing :: "page_data \<Rightarrow> string \<Rightarrow> env" where
  "refusing page msg =
     \<lparr>axios_get = (\<lambda>u. Inr page),
      chat_create = (\<lambda>r. Inl (Error msg)),
      JSON_parse = (\<lambda>s. None)\<rparr>"

definition post_request :: "string \<Rightarrow> string \<Rightarrow> request" where
  "post_request u k = \<lparr>req_url = Some u, req_openaiApiKey = Some k\<rparr>"

text \<open>The reply of the example, the object in it, and the value the object denotes.\<close>

definition example_reply :: string where
  \<open>example_reply =
     ''Here is the JSON: {"url":"x","title":"y","category":"z","attributes":{},"rawPrice":1}''\<close>

definition example_object :: string where
  \<open>example_object = ''{"url":"x","title":"y","category":"z","attributes":{},"rawPrice":1}''\<close>

definition example_value :: json where
  "example_value =
     JObj [(''url'', JStr ''x''), (''title'', JStr ''y''), (''category'', JStr ''z''),
           (''attributes'', JObj []), (''rawPrice'', JNum 1)]"

text \<open>A \<open>JSON.parse\<close> that is known on one text only: it returns \<open>v\<close> on \<open>t\<close> and throws elsewhere.\<close>

definition accepting :: "string \<Rightarrow> json \<Rightarrow> string \<Rightarrow> json option" where
  "accepting t v s = (if s = t then Some v else None)"

text \<open>The select list of the example, and a swatch that carries its colour as data.\<close>

definition size_example :: string where
  \<open>size_example =
     ''<select name="size"><option value="S">S</option><option value="M">M - Sold Out</option><option value="L">L</option></select>''\<close>


text \<open>
  A select list of sizes whose options have no attributes: \<open>select_list labels\<close> is the
  markup of one \<open>select\<close> named \<open>size\<close> with one \<open>option\<close> for each label.
\<close>

definition option_el :: "string \<Rightarrow> string" where
  "option_el label = ''<option>'' @ label @ ''</option>''"

definition select_list :: "string list \<Rightarrow> string" where
  \<open>select_list labels = ''<select name="size">'' @ concat (map option_el labels) @ ''</select>''\<close>

text \<open>
  Select lists and lists of sizes: the list of the example without \<open>value\<close> attributes
  and with values that differ from the labels, values that are not collected, a prompt
  among the options, labels inside further markup, the ways to say that a size is not to
  be had, repeated and overlong labels, the kinds of item, several containers, and markup
  without a container of sizes.
\<close>

definition size_plain :: string where
  \<open>size_plain =
     ''<select name="size"><option>S</option><option>M - Sold Out</option><option>L</option></select>''\<close>

definition size_valued :: string where
  \<open>size_valued =
     ''<select name="size"><option value="s1">S</option><option value="m1">M - Sold Out</option><option value="l1">L</option></select>''\<close>

definition size_prompted :: string where
  \<open>size_prompted =
     ''<select name="size"><option>Select size</option><option>M - Sold Out</option><option>L</option></select>''\<close>

definition size_labels :: string where
  \<open>size_labels =
     ''<ul class="Size-list"><li> <span>XL</span> </li><li><b>XX</b>L</li><li>Choose</li><li></li></ul>''\<close>

definition size_signals :: string where
  \<open>size_signals =
     ''<ul class="sizes"><li class="disabled">S</li><li>M (out of stock)</li><li>L - SOLD-OUT</li><li>XL unavailable</li><li>XXL</li></ul>''\<close>

definition size_repeated :: string where
  \<open>size_repeated =
     ''<ul class="size"><li>M</li><li>m</li><li>M</li><li>12345678901234567890</li><li>1234567890123456789</li><li>preselect</li></ul>''\<close>

definition size_kinds :: string where
  \<open>size_kinds =
     ''<ul id="variants"><div class="option">8</div><a href="#">9</a><button>10</button><li>11</li><option>12</option><span>13</span></ul>''\<close>

definition size_containers :: string where
  \<open>size_containers =
     ''<p>Sizes</p><ul class="size"><li>S</li></ul><DIV ID="VARIANT"><a>M</a></DIV><select name="size"><option>L</option></select><select name="size"><option>XL</option></select>''\<close>

definition size_untagged :: string where
  \<open>size_untagged = ''<select name="qty"><option>S</option></select><div class="size option">M</div>''\<close>

definition size_numbered :: string where
  \<open>size_numbered =
     ''<select name="size"><option value="42">M</option><option value="select-l">L</option><option value="extra-large">XL</option><option value="">XXL</option></select>''\<close>



text \<open>A page without markup.\<close>

definition plain_page :: string where
  "plain_page = ''404 Not Found''"

section \<open>The endpoint's answers\<close>

lemma extractProductData_Inr:
  "\<exists>v. fst (extractProductData e html url key) = Inr v"
  by (cases "completionStage e html url key"; cases "fst (completionStage e html url key)")
     (auto simp: extractProductData_def split: js_error.splits)

lemma extractProductData_error:
  "fst (completionStage e html url key) = Inl (Error msg) \<Longrightarrow>
   fst (extractProductData e html url key) = Inr (errorFallback url msg)"
  by (cases "completionStage e html url key") (auto simp: extractProductData_def)

lemma parse_product_ok:
  assumes "req_url req = Some url" "url \<noteq> []" "req_openaiApiKey req = Some key" "key \<noteq> []"
    and "axios_get e url = Inr html" and "fst (impl e html url key) = Inr v"
  shows "fst (parse_product impl e req) = \<lparr>res_status = 200, res_body = v\<rparr>"
  using assms
  by (cases "impl e html url key")
     (auto simp: parse_product_def fetchProductPage_def)

text \<open>
  C1. A request with a non-empty \<open>url\<close> and a non-empty \<open>openaiApiKey\<close> whose page fetch
  succeeds is answered with status 200. \<open>extractProductData\<close> never throws: whatever
  error its \<open>try\<close> block raises (among them the error of the completion call itself)
  becomes the body of the answer, a record whose title is \<open>Error: \<close> followed by the
  first 30 characters of the error's message.
\<close>

theorem completion_errors_absorbed:
  assumes "req_url req = Some url" "url \<noteq> []" "req_openaiApiKey req = Some key" "key \<noteq> []"
    and "axios_get e url = Inr html"
  shows "res_status (fst (parse_product extractProductData e req)) = 200 \<and>
    (\<exists>v. fst (extractProductData e html url key) = Inr v) \<and>
    (\<forall>msg. fst (completionStage e html url key) = Inl (Error msg) \<longrightarrow>
       res_body (fst (parse_product extractProductData e req)) =
         JObj [(''url'', JStr url),
               (''title'', JStr (''Error: '' @ take 30 msg)),
               (''category'', JStr ''Unknown''),
               (''attributes'', JObj [(''colorOptions'', JArr []), (''sizeOptions'', JArr [])]),
               (''rawPrice'', JNum 0)]) \<and>
    (\<forall>t processedHtml msg.
       html = Markup t \<longrightarrow> extractProductInfo (reduce t) url = Inr processedHtml \<longrightarrow>
       chat_create e (chatRequest key url processedHtml) = Inl (Error msg) \<longrightarrow>
       res_body (fst (parse_product extractProductData e req)) =
         JObj [(''url'', JStr url),
               (''title'', JStr (''Error: '' @ take 30 msg)),
               (''category'', JStr ''Unknown''),
               (''attributes'', JObj [(''colorOptions'', JArr []), (''sizeOptions'', JArr [])]),
               (''rawPrice'', JNum 0)])"
proof -
  obtain v where v: "fst (extractProductData e html url key) = Inr v"
    using extractProductData_Inr by blast
  have ok: "fst (parse_product extractProductData e req) = \<lparr>res_status = 200, res_body = v\<rparr>"
    using parse_product_ok[where impl = extractProductData, OF assms v] .
  have caught: "res_body (fst (parse_product extractProductData e req)) = errorFallback url msg"
    if "fst (completionStage e html url key) = Inl (Error msg)" for msg
    using extractProductData_error[OF that] v ok by simp
  have thrown: "fst (completionStage e (Markup t) url key) = Inl (Error msg)"
    if "extractProductInfo (reduce t) url = Inr p" "chat_create e (chatRequest key url p) = Inl (Error msg)"
    for t p msg
    using that by (simp add: completionStage_def cleanHtml_def)
  show ?thesis
    using ok v caught thrown by (auto simp: errorFallback_def)
qed

text \<open>
  C4. A request whose \<open>url\<close> or whose \<open>openaiApiKey\<close> is missing or empty is answered
  with status 400 and the fixed error body, whatever the other field is, and no outbound
  call is made.
\<close>

theorem missing_parameter_400:
  assumes "req_url req = None \<or> req_url req = Some [] \<or>
           req_openaiApiKey req = None \<or> req_openaiApiKey req = Some []"
  shows "parse_product impl e req =
    (\<lparr>res_status = 400,
      res_body = JObj [(''error'', JStr ''Missing required parameters: url and openaiApiKey are required'')]\<rparr>,
     [])"
  using assms
  by (auto simp: parse_product_def missingParameters_def split: option.splits)

text \<open>
  C5. A request that passes validation but whose page fetch throws is answered with
  status 500; the \<open>error\<close> field of the body is \<open>Failed to process product URL\<close> and its
  \<open>message\<close> field is \<open>Failed to fetch product page: \<close> followed by the message of the
  fetch error. The fetch is the only outbound call.
\<close>

theorem fetch_failure_500:
  assumes "req_url req = Some url" "url \<noteq> []" "req_openaiApiKey req = Some key" "key \<noteq> []"
    and "axios_get e url = Inl (Error msg)"
  shows "parse_product impl e req =
    (\<lparr>res_status = 500,
      res_body = JObj [(''error'', JStr ''Failed to process product URL''),
                       (''message'', JStr (''Failed to fetch product page: '' @ msg))]\<rparr>,
     [HttpGet url])"
  using assms
  by (simp add: parse_product_def fetchProductPage_def serverError_def)

theorem missing_parameter_400_witness:
  "parse_product extractProductData offline \<lparr>req_url = Some [], req_openaiApiKey = Some ''sk-1''\<rparr> =
    (\<lparr>res_status = 400,
      res_body = JObj [(''error'', JStr ''Missing required parameters: url and openaiApiKey are required'')]\<rparr>,
     []) \<and>
   parse_product extractProductData_ps offline \<lparr>req_url = Some ''https://shop.invalid/p/1'', req_openaiApiKey = None\<rparr> =
    (\<lparr>res_status = 400,
      res_body = JObj [(''error'', JStr ''Missing required parameters: url and openaiApiKey are required'')]\<rparr>,
     [])"
  using missing_parameter_400[of "\<lparr>req_url = Some [], req_openaiApiKey = Some ''sk-1''\<rparr>" extractProductData offline]
    missing_parameter_400[of "\<lparr>req_url = Some ''https://shop.invalid/p/1'', req_openaiApiKey = None\<rparr>" extractProductData_ps offline]
  by simp

theorem fetch_failure_500_witness:
  "parse_product extractProductData offline (post_request ''https://shop.invalid/p/1'' ''sk-1'') =
    (\<lparr>res_status = 500,
      res_body = JObj [(''error'', JStr ''Failed to process product URL''),
                       (''message'', JStr ''Failed to fetch product page: getaddrinfo ENOTFOUND shop.invalid'')]\<rparr>,
     [HttpGet ''https://shop.invalid/p/1''])"
  using fetch_failure_500[of "post_request ''https://shop.invalid/p/1'' ''sk-1''" "''https://shop.invalid/p/1''"
      "''sk-1''" offline "''getaddrinfo ENOTFOUND shop.invalid''" extractProductData]
  by (simp add: post_request_def offline_def)

section \<open>Evaluating the matcher\<close>

text \<open>
  Equations by which the simplifier runs the matcher on a given text: the search one
  position at a time, and the stars whose body is a single character without the length
  test of the general equation (one character is always progress).
\<close>

lemma search_Nil: "search i re [] = match_here i re []"
  by (simp add: search.simps split: option.splits)

lemma search_Cons:
  "search i re (x # t) =
     (case match_here i re (x # t) of
        Some r \<Rightarrow> Some r
      | None \<Rightarrow> map_option (\<lambda>r. r\<lparr>pre := x # pre r\<rparr>) (search i re t))"
  by (subst search.simps) (simp split: option.splits)

lemma m_Star_Dot:
  "m i (Star Dot) k (g, []) = k (g, [])"
  "m i (Star Dot) k (g, c # t) =
     (if isLineTerminator c then k (g, c # t)
      else (case m i (Star Dot) k (g, t) of Some x \<Rightarrow> Some x | None \<Rightarrow> k (g, c # t)))"
  by (simp_all add: m.simps)

lemma m_Star_Set:
  "m i (Star (Set cs)) k (g, []) = k (g, [])"
  "m i (Star (Set cs)) k (g, c # t) =
     (if list_ex (in_cls i c) cs
      then (case m i (Star (Set cs)) k (g, t) of Some x \<Rightarrow> Some x | None \<Rightarrow> k (g, c # t))
      else k (g, c # t))"
  by (simp_all add: m.simps)

lemma m_Star_NotSet:
  "m i (Star (NotSet cs)) k (g, []) = k (g, [])"
  "m i (Star (NotSet cs)) k (g, c # t) =
     (if list_ex (in_cls i c) cs then k (g, c # t)
      else (case m i (Star (NotSet cs)) k (g, t) of Some x \<Rightarrow> Some x | None \<Rightarrow> k (g, c # t)))"
  by (simp_all add: m.simps)

lemma m_Lazy_Dot:
  "m i (Lazy Dot) k (g, []) = k (g, [])"
  "m i (Lazy Dot) k (g, c # t) =
     (case k (g, c # t) of
        Some x \<Rightarrow> Some x
      | None \<Rightarrow> if isLineTerminator c then None else m i (Lazy Dot) k (g, t))"
  by (simp_all add: m.simps split: option.splits)

lemma m_Lazy_Set:
  "m i (Lazy (Set cs)) k (g, []) = k (g, [])"
  "m i (Lazy (Set cs)) k (g, c # t) =
     (case k (g, c # t) of
        Some x \<Rightarrow> Some x
      | None \<Rightarrow> if list_ex (in_cls i c) cs then m i (Lazy (Set cs)) k (g, t) else None)"
  by (simp_all add: m.simps split: option.splits)

lemma chr_eq_Char:
  "chr_eq i (Char a0 a1 a2 a3 a4 a5 a6 a7) (Char b0 b1 b2 b3 b4 b5 b6 b7) =
     (a0 = b0 \<and> a1 = b1 \<and> a2 = b2 \<and> a3 = b3 \<and> a4 = b4 \<and> a6 = b6 \<and> a7 = b7 \<and>
      (a5 = b5 \<or> (i \<and> a6 \<and> \<not> a7 \<and> letterBits a0 a1 a2 a3 a4)))"
  by (auto simp: chr_eq_def)

lemma isSpace_Char:
  "isSpace (Char b0 b1 b2 b3 b4 b5 b6 b7) =
     ((\<not> b4 \<and> \<not> b5 \<and> \<not> b6 \<and> \<not> b7 \<and> b3 \<and> (b0 \<or> b1 \<or> b2) \<and> \<not> (b1 \<and> b2)) \<or>
      (b5 \<and> \<not> b6 \<and> \<not> b0 \<and> \<not> b1 \<and> \<not> b2 \<and> \<not> b3 \<and> \<not> b4))"
  by (cases b0; cases b1; cases b2; cases b3; cases b4; cases b5; cases b6; cases b7)
     (simp_all add: isSpace_def)

lemma anyChar_ok: "list_ex (in_cls i c) [CSpace, CNotSpace] = True"
  by simp

lemma can_start_None: "\<not> can_start i r c \<Longrightarrow> m i r k (g, c # t) = None"
  by (induction i r c arbitrary: k rule: can_start.induct) (auto simp: m.simps)

lemma search_Cons_start:
  "search i re (x # t) =
     (if can_start i re x
      then (case match_here i re (x # t) of
              Some r \<Rightarrow> Some r
            | None \<Rightarrow> map_option (\<lambda>r. r\<lparr>pre := x # pre r\<rparr>) (search i re t))
      else map_option (\<lambda>r. r\<lparr>pre := x # pre r\<rparr>) (search i re t))"
  by (subst search.simps) (simp add: match_here_def can_start_None split: option.splits)

text \<open>
  Congruence rules that keep the simplifier from walking through the text again at every
  step.
\<close>

lemma search_wcong: "re = re' \<Longrightarrow> search i re s = search i re' s"
  by simp

lemma match_here_wcong: "re = re' \<Longrightarrow> match_here i re s = match_here i re' s"
  by simp

lemma m_wcong: "r = r' \<Longrightarrow> m i r k st = m i r' k st"
  by simp

lemma lit_match_wcong: "i = i' \<Longrightarrow> lit_match i l s = lit_match i' l s"
  by simp

lemmas wc = search_wcong match_here_wcong m_wcong lit_match_wcong

lemmas run_m =
  m.simps(1-6) m.simps(9-11) m_Star_Dot m_Star_Set m_Star_NotSet m_Lazy_Dot m_Lazy_Set
  search_Nil search_Cons_start match_here_def span_text_def chr_eq_Char isSpace_Char anyChar_ok
  isLineTerminator_def isDigit_def letterBits_def isWord_def Opt_def Plus_def
  quote_def notGt_def notLt_def anyChar_def

lemmas run_js =
  toLowerCase_def trim_def setAdd_def newSet_def match_all.simps matches_def replace_all.simps
  split_ws.simps Let_def

lemmas run_extractors =
  elem_re_def elem_attr_re_def attr_re_def price_class_re_def re_price_dollar_def meta_re_def
  re_tag_def sep_def re_unavailable_def re_digits_def all_digits_def re_style_def size_key_def
  color_key_def container_def truthy_group_def sizeContainers_def sizeItems_def
  visible_text_def unavailable_def placeholder_def sizeStep_def keep_def sizeCollected_def
  extractSizeOptions_def colorContainers_def colorKeywords_def colorItems_def names_color_def
  color_named_def classStep_def colorStep_def colorCollected_def extractColorOptions_def
  orMatch_def titleMatch_def priceMatch_def descMatch_def catMatch_def titleInfo_def
  priceInfo_def sizeInfo_def colorInfo_def strip_tags_def descInfo_def catInfo_def
  productInfo_def structured_def raw_def extractProductInfo_def nl_def

section \<open>The parsing ladder of the completion client\<close>

lemma close_brace: "m False (Lit ''}'') Some (g, s) = (case s of [] \<Rightarrow> None | c # t \<Rightarrow> if c = CHR ''}'' then Some (g, t) else None)"
  by (cases s) (auto simp: m.simps chr_eq_def)

lemma star_any_step:
  "m False (Star anyChar) k (g, c # t) =
     (case m False (Star anyChar) k (g, t) of Some x \<Rightarrow> Some x | None \<Rightarrow> k (g, c # t))"
  by (simp add: anyChar_def m_Star_Set)

lemma after_last_Cons:
  "after_last (c # t) =
     (if CHR ''}'' \<in> set t then after_last t else if c = CHR ''}'' then t else c # t)"
proof (cases "CHR ''}'' \<in> set t")
  case True
  then have "takeWhile (\<lambda>c. c \<noteq> CHR ''}'') (rev t @ [c]) = takeWhile (\<lambda>c. c \<noteq> CHR ''}'') (rev t)"
    by (intro takeWhile_append1[of "CHR ''}''"]) auto
  with True show ?thesis
    by (simp add: after_last_def)
next
  case False
  then have "takeWhile (\<lambda>c. c \<noteq> CHR ''}'') (rev t @ [c]) = rev t @ takeWhile (\<lambda>c. c \<noteq> CHR ''}'') [c]"
    by (intro takeWhile_append2) auto
  with False show ?thesis
    by (simp add: after_last_def)
qed

lemma star_any_last:
  "m False (Star anyChar) (m False (Lit ''}'') Some) (g, s) =
     (if CHR ''}'' \<in> set s then Some (g, after_last s) else None)"
proof (induction s)
  case Nil
  show ?case by (simp add: anyChar_def m_Star_Set close_brace)
next
  case (Cons c t)
  show ?case
    unfolding star_any_step Cons after_last_Cons close_brace by simp
qed

lemma match_here_json:
  "match_here False re_json s =
     (case s of
        [] \<Rightarrow> None
      | b # t \<Rightarrow>
          if b = CHR ''{'' \<and> CHR ''}'' \<in> set t
          then Some \<lparr>whole = b # rev (dropWhile (\<lambda>c. c \<noteq> CHR ''}'') (rev t)), group1 = None,
                     pre = [], post = after_last t\<rparr>
          else None)"
proof (cases s)
  case Nil
  then show ?thesis by (simp add: match_here_def re_json_def m.simps)
next
  case (Cons b t)
  have split: "t = rev (dropWhile (\<lambda>c. c \<noteq> CHR ''}'') (rev t)) @ after_last t"
    unfolding after_last_def by (metis rev_append rev_rev_ident takeWhile_dropWhile_id)
  have "length t - length (after_last t) = length (rev (dropWhile (\<lambda>c. c \<noteq> CHR ''}'') (rev t)))"
    using arg_cong[OF split, of length] by simp
  then have "take (length t - length (after_last t)) t = rev (dropWhile (\<lambda>c. c \<noteq> CHR ''}'') (rev t))"
    using split by (metis append_eq_conv_conj)
  moreover have "length (after_last t) \<le> length t"
    using arg_cong[OF split, of length] by simp
  ultimately have "span_text (b # t, after_last t) = b # rev (dropWhile (\<lambda>c. c \<noteq> CHR ''}'') (rev t))"
    by (simp add: span_text_def Suc_diff_le)
  with Cons show ?thesis
    using star_any_last[of None t]
    by (auto simp: match_here_def re_json_def m.simps chr_eq_def)
qed

lemma search_json_none: "CHR ''}'' \<notin> set s \<Longrightarrow> search False re_json s = None"
  by (induction s) (auto simp: search_Nil search_Cons match_here_json)

lemma search_json: "map_option whole (search False re_json s) = brace_span s"
proof (induction s)
  case Nil
  show ?case by (simp add: search_Nil match_here_json brace_span_def)
next
  case (Cons c t)
  show ?case
  proof (cases "c = CHR ''{''")
    case True
    then show ?thesis
      by (auto simp: search_Cons match_here_json brace_span_def search_json_none)
  next
    case False
    with Cons show ?thesis
      by (simp add: search_Cons match_here_json brace_span_def option.map_comp comp_def)
  qed
qed

lemma example_span: "brace_span example_reply = Some example_object"
  by (simp add: brace_span_def example_reply_def example_object_def)

text \<open>
  C2. The parser of the completion text first parses the whole text and returns the
  value; when that throws, it looks for the span from the first \<open>{\<close> through the last
  \<open>}\<close>, parses the span and returns that value; when there is no span or the span does
  not parse, it returns the static fallback record. On the reply of the example the
  pattern finds the embedded object, so with a \<open>JSON.parse\<close> that throws on the whole
  reply and parses the object, the parsed object is returned.
\<close>

theorem parse_ladder:
  "parseContent e url content =
     (case JSON_parse e content of
        Some v \<Rightarrow> v
      | None \<Rightarrow>
          (case brace_span content of
             None \<Rightarrow> staticFallback url
           | Some sp \<Rightarrow>
               (case JSON_parse e sp of Some v \<Rightarrow> v | None \<Rightarrow> staticFallback url))) \<and>
   map_option whole (search False re_json example_reply) = Some example_object \<and>
   (\<forall>v. JSON_parse e example_reply = None \<longrightarrow> JSON_parse e example_object = Some v \<longrightarrow>
        parseContent e url example_reply = v)"
proof -
  have ladder: "parseContent e url c =
     (case JSON_parse e c of
        Some v \<Rightarrow> v
      | None \<Rightarrow>
          (case brace_span c of
             None \<Rightarrow> staticFallback url
           | Some sp \<Rightarrow>
               (case JSON_parse e sp of Some v \<Rightarrow> v | None \<Rightarrow> staticFallback url)))" for c
    using search_json[of c]
    by (cases "search False re_json c") (auto simp: parseContent_def split: option.splits)
  have found: "map_option whole (search False re_json example_reply) = Some example_object"
    by (simp add: search_json example_span)
  show ?thesis
    using ladder[of content] ladder[of example_reply] found
    by (simp add: example_span)
qed

theorem parse_ladder_witness:
  "JSON_parse (answering (Markup []) example_reply (accepting example_object example_value)) example_reply = None \<and>
   parseContent (answering (Markup []) example_reply (accepting example_object example_value))
     ''https://shop.example/p/1'' example_reply = example_value"
proof -
  let ?e = "answering (Markup []) example_reply (accepting example_object example_value)"
  have a: "JSON_parse ?e example_reply = None"
    by (simp add: answering_def accepting_def example_reply_def example_object_def)
  have b: "JSON_parse ?e example_object = Some example_value"
    by (simp add: answering_def accepting_def)
  from parse_ladder[of ?e "''https://shop.example/p/1''" example_reply] a b show ?thesis
    by blast
qed

section \<open>The extractors never throw\<close>

lemma m_binds:
  "m i r k st = Some x \<Longrightarrow>
   \<exists>g' s'. k (g', s') = Some x \<and> (binds r \<or> fst st \<noteq> None \<longrightarrow> g' \<noteq> None)"
proof (induction i r k st arbitrary: x rule: m.induct)
  case (1 i l k g s)
  then show ?case
    by (auto simp: m.simps split: option.splits)
next
  case (2 i k g s)
  then show ?case
    by (auto simp: m.simps split: list.splits if_splits)
next
  case (3 i cs k g s)
  then show ?case
    by (auto simp: m.simps split: list.splits if_splits)
next
  case (4 i cs k g s)
  then show ?case
    by (auto simp: m.simps split: list.splits if_splits)
next
  case (5 i a b k st)
  from "5.IH"(2)[of x] "5.prems"
  obtain g1 s1 where a: "m i b k (g1, s1) = Some x"
    and g1: "binds a \<or> fst st \<noteq> None \<longrightarrow> g1 \<noteq> None"
    by (auto simp: m.simps)
  from "5.IH"(1)[OF a] obtain g2 s2 where "k (g2, s2) = Some x"
    and "binds b \<or> g1 \<noteq> None \<longrightarrow> g2 \<noteq> None"
    by auto
  with g1 show ?case
    by auto
next
  case (6 i a b k st)
  show ?case
  proof (cases "m i a k st")
    case None
    with "6.prems" have "m i b k st = Some x" by (simp add: m.simps)
    from "6.IH"(2)[OF None this] show ?thesis by auto
  next
    case (Some y)
    with "6.prems" have "m i a k st = Some x" by (simp add: m.simps)
    from "6.IH"(1)[OF this] show ?thesis by auto
  qed
next
  case (7 i r k g s)
  let ?K = "\<lambda>(g', s'). if length s' < length s then m i (Star r) k (g', s') else None"
  show ?case
  proof (cases "m i r ?K (g, s)")
    case None
    with "7.prems" show ?thesis by (auto simp: m.simps)
  next
    case (Some y)
    with "7.prems" have y: "y = x" by (simp add: m.simps)
    from "7.IH"(2)[of x] Some y
    obtain g1 s1 where k1: "?K (g1, s1) = Some x" and g1: "g \<noteq> None \<longrightarrow> g1 \<noteq> None"
      by auto
    then have len: "length s1 < length s" and st: "m i (Star r) k (g1, s1) = Some x"
      by (auto split: if_splits)
    from "7.IH"(1)[OF len st] obtain g2 s2 where "k (g2, s2) = Some x"
      and "g1 \<noteq> None \<longrightarrow> g2 \<noteq> None"
      by auto
    with g1 show ?thesis
      by auto
  qed
next
  case (8 i r k g s)
  let ?K = "\<lambda>(g', s'). if length s' < length s then m i (Lazy r) k (g', s') else None"
  show ?case
  proof (cases "k (g, s)")
    case (Some y)
    with "8.prems" show ?thesis by (auto simp: m.simps)
  next
    case None
    with "8.prems" have r: "m i r ?K (g, s) = Some x" by (simp add: m.simps)
    from "8.IH"(2)[OF None r]
    obtain g1 s1 where k1: "?K (g1, s1) = Some x" and g1: "g \<noteq> None \<longrightarrow> g1 \<noteq> None"
      by auto
    then have len: "length s1 < length s" and st: "m i (Lazy r) k (g1, s1) = Some x"
      by (auto split: if_splits)
    from "8.IH"(1)[OF None len st] obtain g2 s2 where "k (g2, s2) = Some x"
      and "g1 \<noteq> None \<longrightarrow> g2 \<noteq> None"
      by auto
    with g1 show ?thesis
      by auto
  qed
next
  case (9 i r k g s)
  from "9.IH"[of x] "9.prems" show ?case
    by (auto simp: m.simps)
next
  case (10 i r k st)
  then show ?case
    by (cases st) (auto simp: m.simps split: option.splits)
next
  case (11 i k g s)
  then show ?case
    by (auto simp: m.simps split: if_splits)
qed

lemma match_here_binds:
  assumes "binds re" and "match_here i re s = Some r"
  shows "\<exists>g. group1 r = Some g"
proof -
  from assms(2) obtain g rest where mm: "m i re Some (None, s) = Some (g, rest)"
    and r: "group1 r = map_option span_text g"
    by (auto simp: match_here_def split: option.splits)
  from m_binds[OF mm] assms(1) have "g \<noteq> None" by auto
  with r show ?thesis by auto
qed

lemma search_binds: "binds re \<Longrightarrow> search i re s = Some r \<Longrightarrow> \<exists>g. group1 r = Some g"
proof (induction s arbitrary: r)
  case Nil
  then show ?case
    by (auto simp: search_Nil dest: match_here_binds)
next
  case (Cons x t)
  show ?case
  proof (cases "match_here i re (x # t)")
    case (Some r')
    with Cons.prems show ?thesis
      by (auto simp: search_Cons dest: match_here_binds)
  next
    case None
    with Cons.prems obtain r' where "search i re t = Some r'" and "group1 r = group1 r'"
      by (auto simp: search_Cons)
    with Cons.IH[of r'] Cons.prems(1) show ?thesis by auto
  qed
qed

lemma binds_elem_re: "binds (elem_re tag)"
  by (simp add: elem_re_def)

lemma binds_elem_attr_re: "binds (elem_attr_re tag key body)"
  by (simp add: elem_attr_re_def)

lemma binds_meta_re: "binds (meta_re key)"
  by (simp add: meta_re_def)

lemma titleMatch_group: "titleMatch html = Some r \<Longrightarrow> \<exists>g. group1 r = Some g"
  unfolding titleMatch_def orMatch_def
  by (auto split: option.splits
      dest: search_binds[OF binds_elem_re] search_binds[OF binds_elem_attr_re])

lemma descMatch_group: "descMatch html = Some r \<Longrightarrow> \<exists>g. group1 r = Some g"
  unfolding descMatch_def orMatch_def
  by (auto split: option.splits
      dest: search_binds[OF binds_elem_attr_re] search_binds[OF binds_meta_re])

lemma catMatch_group: "catMatch html = Some r \<Longrightarrow> \<exists>g. group1 r = Some g"
  unfolding catMatch_def orMatch_def
  by (auto split: option.splits
      dest: search_binds[OF binds_elem_attr_re] search_binds[OF binds_meta_re])

lemma titleInfo_Inr:
  "\<exists>t. titleInfo html = Inr t \<and> length t \<le> 1 \<and> (titleMatch html = None \<longrightarrow> t = [])"
  by (cases "titleMatch html") (auto simp: titleInfo_def dest: titleMatch_group)

lemma descInfo_Inr:
  "\<exists>d. descInfo html = Inr d \<and> length d \<le> 1 \<and> (descMatch html = None \<longrightarrow> d = [])"
  by (cases "descMatch html") (auto simp: descInfo_def dest: descMatch_group)

lemma catInfo_Inr:
  "\<exists>k. catInfo html = Inr k \<and> length k \<le> 1 \<and> (catMatch html = None \<longrightarrow> k = [])"
  by (cases "catMatch html") (auto simp: catInfo_def dest: catMatch_group)

lemma productInfo_Inr:
  "\<exists>t d k. titleInfo html = Inr t \<and> descInfo html = Inr d \<and> catInfo html = Inr k \<and>
     productInfo html = Inr (t @ priceInfo html @ sizeInfo html @ colorInfo html @ d @ k)"
  using titleInfo_Inr[of html] descInfo_Inr[of html] catInfo_Inr[of html]
  by (auto simp: productInfo_def Let_def)

lemma extractProductInfo_Inr: "\<exists>out. extractProductInfo html url = Inr out"
  using productInfo_Inr[of html] by (auto simp: extractProductInfo_def)

section \<open>The two completion clients compared\<close>

lemma completionStage_Markup:
  "\<exists>p. extractProductInfo (reduce t) url = Inr p \<and>
     completionStage e (Markup t) url key =
       (case chat_create e (chatRequest key url p) of
          Inl err \<Rightarrow> (Inl err, [ChatCompletion (chatRequest key url p)])
        | Inr response \<Rightarrow>
            (case response_content response of
               Inl err \<Rightarrow> (Inl err, [ChatCompletion (chatRequest key url p)])
             | Inr content \<Rightarrow>
                 (Inr (parseContent e url content), [ChatCompletion (chatRequest key url p)])))"
  using extractProductInfo_Inr[of "reduce t" url]
  by (auto simp: completionStage_def cleanHtml_def Let_def)

lemma completionStage_refused:
  "chat_create e = (\<lambda>r. Inl (Error msg)) \<Longrightarrow>
   fst (completionStage e (Markup t) url key) = Inl (Error msg)"
  using completionStage_Markup[of t url e key] by auto

lemma completionStage_answered:
  "chat_create e = (\<lambda>r. Inr \<lparr>choices = [Some reply]\<rparr>) \<Longrightarrow>
   fst (completionStage e (Markup t) url key) = Inr (parseContent e url reply)"
  using completionStage_Markup[of t url e key] by (auto simp: response_content_def)

lemma simplifyHtml_Markup: "\<exists>q. simplifyHtml (Markup t) = Inr q"
  by (simp add: simplifyHtml_def cleanHtml_def Let_def)

lemma simplifyHtml_error: "cleanHtml html = Inl err \<Longrightarrow> simplifyHtml html = Inl err"
  by (simp add: simplifyHtml_def)

lemma simplifyHtml_Inr: "cleanHtml html = Inr c \<Longrightarrow> \<exists>q. simplifyHtml html = Inr q"
  by (simp add: simplifyHtml_def Let_def)

lemma completionStage_ps_answered:
  "chat_create e = (\<lambda>r. Inr \<lparr>choices = [Some reply]\<rparr>) \<Longrightarrow>
   fst (completionStage_ps e (Markup t) url key) = Inr (parseContent_ps e url reply)"
  using simplifyHtml_Markup[of t]
  by (auto simp: completionStage_ps_def response_content_def Let_def)

lemma completionStage_ps_refused:
  "chat_create e = (\<lambda>r. Inl (Error msg)) \<Longrightarrow>
   fst (completionStage_ps e (Markup t) url key) = Inl (Error msg)"
  using simplifyHtml_Markup[of t]
  by (auto simp: completionStage_ps_def Let_def)

lemma extractProductData_ps_error:
  "fst (completionStage_ps e html url key) = Inl (Error msg) \<Longrightarrow>
   fst (extractProductData_ps e html url key) = Inr (errorFallback_ps url msg)"
  by (cases "completionStage_ps e html url key") (auto simp: extractProductData_ps_def)

lemma extractProductData_value:
  "fst (completionStage e html url key) = Inr v \<Longrightarrow> fst (extractProductData e html url key) = Inr v"
  by (cases "completionStage e html url key") (auto simp: extractProductData_def)

lemma extractProductData_ps_value:
  "fst (completionStage_ps e html url key) = Inr v \<Longrightarrow>
   fst (extractProductData_ps e html url key) = Inr v"
  by (cases "completionStage_ps e html url key") (auto simp: extractProductData_ps_def)

lemma parseContent_ps_ladder:
  "parseContent_ps e url c =
     (case JSON_parse e c of
        Some v \<Rightarrow> v
      | None \<Rightarrow>
          (case brace_span c of
             None \<Rightarrow> staticFallback_ps url
           | Some sp \<Rightarrow>
               (case JSON_parse e sp of Some v \<Rightarrow> v | None \<Rightarrow> staticFallback_ps url)))"
  using search_json[of c]
  by (cases "search False re_json c") (auto simp: parseContent_ps_def split: option.splits)

lemma parseContent_ladder:
  "parseContent e url c =
     (case JSON_parse e c of
        Some v \<Rightarrow> v
      | None \<Rightarrow>
          (case brace_span c of
             None \<Rightarrow> staticFallback url
           | Some sp \<Rightarrow>
               (case JSON_parse e sp of Some v \<Rightarrow> v | None \<Rightarrow> staticFallback url)))"
  using search_json[of c]
  by (cases "search False re_json c") (auto simp: parseContent_def split: option.splits)

lemma parsed_or_unparsable: "(\<exists>v. parsed e c v) \<or> unparsable e c"
proof (cases "JSON_parse e c")
  case (Some w)
  then show ?thesis by (simp add: parsed_def)
next
  case None
  show ?thesis
  proof (cases "brace_span c")
    case n: None
    with None show ?thesis by (simp add: unparsable_def)
  next
    case s: (Some sp)
    with None show ?thesis
      by (cases "JSON_parse e sp") (simp_all add: parsed_def unparsable_def)
  qed
qed

lemma parsed_values:
  "parsed e c v \<Longrightarrow> parseContent e url c = v \<and> parseContent_ps e url c = v"
  by (auto simp: parsed_def parseContent_ladder parseContent_ps_ladder split: option.splits)

lemma unparsable_values:
  "unparsable e c \<Longrightarrow>
   parseContent e url c = staticFallback url \<and> parseContent_ps e url c = staticFallback_ps url"
  by (auto simp: unparsable_def parseContent_ladder parseContent_ps_ladder split: option.splits)

lemma stages_agree:
  assumes "\<And>c p q. cleanHtml html = Inr c \<Longrightarrow> extractProductInfo c url = Inr p \<Longrightarrow>
             simplifyHtml html = Inr q \<Longrightarrow>
             chat_create e (chatRequest key url p) = chat_create e (chatRequest_ps key url q)"
  shows "(\<exists>msg. fst (completionStage e html url key) = Inl (Error msg) \<and>
                fst (completionStage_ps e html url key) = Inl (Error msg)) \<or>
         (\<exists>content. fst (completionStage e html url key) = Inr (parseContent e url content) \<and>
                    fst (completionStage_ps e html url key) = Inr (parseContent_ps e url content))"
proof (cases "cleanHtml html")
  case (Inl err)
  obtain msg where "err = Error msg" by (cases err)
  with Inl show ?thesis
    by (simp add: completionStage_def completionStage_ps_def simplifyHtml_error)
next
  case (Inr c)
  obtain p where p: "extractProductInfo c url = Inr p"
    using extractProductInfo_Inr by blast
  obtain q where q: "simplifyHtml html = Inr q"
    using simplifyHtml_Inr[OF Inr] by blast
  have same: "chat_create e (chatRequest key url p) = chat_create e (chatRequest_ps key url q)"
    using assms[OF Inr p q] .
  show ?thesis
  proof (cases "chat_create e (chatRequest_ps key url q)")
    case (Inl err)
    obtain msg where "err = Error msg" by (cases err)
    with Inl Inr p q same show ?thesis
      by (simp add: completionStage_def completionStage_ps_def Let_def)
  next
    case r: (Inr response)
    show ?thesis
    proof (cases "response_content response")
      case (Inl err)
      obtain msg where "err = Error msg" by (cases err)
      with Inl r Inr p q same show ?thesis
        by (simp add: completionStage_def completionStage_ps_def Let_def)
    next
      case c: (Inr content)
      with r Inr p q same show ?thesis
        by (auto simp: completionStage_def completionStage_ps_def Let_def intro!: exI[of _ content])
    qed
  qed
qed

lemma fallbacks_differ:
  "staticFallback url \<noteq> staticFallback_ps url" "errorFallback url msg \<noteq> errorFallback_ps url msg'"
  by (simp_all add: staticFallback_def staticFallback_ps_def errorFallback_def errorFallback_ps_def)

text \<open>
  C3. When the completion text parses neither as a whole nor in its span from the first
  \<open>{\<close> through the last \<open>}\<close>, the \<open>extractProductData\<close> of src/unnamed/part_000 returns
  the static fallback record with the two empty option arrays, as the claim says. The
  \<open>extractProductData\<close> of src/productService.js returns, on the same completion text, a
  record whose \<open>attributes\<close> is the empty object.
\<close>

theorem static_fallback_records:
  assumes "JSON_parse e content = None"
    and "\<And>sp. brace_span content = Some sp \<Longrightarrow> JSON_parse e sp = None"
    and "extractProductInfo (reduce t) url = Inr p"
    and "chat_create e (chatRequest key url p) = Inr \<lparr>choices = Some content # others\<rparr>"
    and "simplifyHtml (Markup t) = Inr q"
    and "chat_create e (chatRequest_ps key url q) = Inr \<lparr>choices = Some content # others\<rparr>"
  shows "fst (extractProductData e (Markup t) url key) =
      Inr (JObj [(''url'', JStr url),
                 (''title'', JStr ''Product Title Not Extracted''),
                 (''category'', JStr ''Unknown''),
                 (''attributes'', JObj [(''colorOptions'', JArr []), (''sizeOptions'', JArr [])]),
                 (''rawPrice'', JNum 0)]) \<and>
    fst (extractProductData_ps e (Markup t) url key) =
      Inr (JObj [(''url'', JStr url),
                 (''title'', JStr ''Product Title Not Extracted''),
                 (''category'', JStr ''Unknown''),
                 (''attributes'', JObj []),
                 (''rawPrice'', JNum 0)])"
proof -
  have u: "unparsable e content"
    using assms(1,2) by (auto simp: unparsable_def split: option.splits)
  have a: "fst (completionStage e (Markup t) url key) = Inr (parseContent e url content)"
    using assms(3,4) by (simp add: completionStage_def cleanHtml_def response_content_def)
  have b: "fst (completionStage_ps e (Markup t) url key) = Inr (parseContent_ps e url content)"
    using assms(5,6) by (simp add: completionStage_ps_def response_content_def)
  from unparsable_values[OF u, of url] extractProductData_value[OF a] extractProductData_ps_value[OF b]
  show ?thesis
    by (simp add: staticFallback_def staticFallback_ps_def)
qed

theorem static_fallback_records_witness:
  "fst (extractProductData
         (answering (Markup ''<h1>Widget</h1>'') ''Sorry, no product here.''
            (accepting example_object example_value))
         (Markup ''<h1>Widget</h1>'') ''https://shop.example/p/1'' ''sk-1'') =
      Inr (JObj [(''url'', JStr ''https://shop.example/p/1''),
                 (''title'', JStr ''Product Title Not Extracted''),
                 (''category'', JStr ''Unknown''),
                 (''attributes'', JObj [(''colorOptions'', JArr []), (''sizeOptions'', JArr [])]),
                 (''rawPrice'', JNum 0)]) \<and>
   fst (extractProductData_ps
         (answering (Markup ''<h1>Widget</h1>'') ''Sorry, no product here.''
            (accepting example_object example_value))
         (Markup ''<h1>Widget</h1>'') ''https://shop.example/p/1'' ''sk-1'') =
      Inr (JObj [(''url'', JStr ''https://shop.example/p/1''),
                 (''title'', JStr ''Product Title Not Extracted''),
                 (''category'', JStr ''Unknown''),
                 (''attributes'', JObj []),
                 (''rawPrice'', JNum 0)])"
proof -
  let ?e = "answering (Markup ''<h1>Widget</h1>'') ''Sorry, no product here.''
              (accepting example_object example_value)"
  obtain p where p: "extractProductInfo (reduce ''<h1>Widget</h1>'') ''https://shop.example/p/1'' = Inr p"
    using extractProductInfo_Inr by blast
  obtain q where q: "simplifyHtml (Markup ''<h1>Widget</h1>'') = Inr q"
    using simplifyHtml_Markup by blast
  have a: "JSON_parse ?e ''Sorry, no product here.'' = None"
    by (simp add: answering_def accepting_def example_object_def)
  have b: "brace_span ''Sorry, no product here.'' = Some sp \<Longrightarrow> JSON_parse ?e sp = None" for sp
    by (simp add: brace_span_def)
  have c: "chat_create ?e r = Inr \<lparr>choices = Some ''Sorry, no product here.'' # []\<rparr>" for r
    by (simp add: answering_def)
  show ?thesis
    using static_fallback_records[of ?e "''Sorry, no product here.''" "''<h1>Widget</h1>''"
        "''https://shop.example/p/1''" p "''sk-1''" "[]" q, OF a b p c q c]
    by simp
qed

text \<open>
  C10. On the same page, url and completion outcome, the two \<open>extractProductData\<close> return
  the same value when one of the two parses of the completion text succeeds. Otherwise
  they return their fallback records, and these are not the same: the static fallbacks
  differ in \<open>attributes\<close>, the error fallbacks in \<open>attributes\<close> and in \<open>category\<close>.
\<close>

theorem clients_agree_up_to_fallbacks:
  assumes "\<And>c p q. cleanHtml html = Inr c \<Longrightarrow> extractProductInfo c url = Inr p \<Longrightarrow>
             simplifyHtml html = Inr q \<Longrightarrow>
             chat_create e (chatRequest key url p) = chat_create e (chatRequest_ps key url q)"
  shows "((\<exists>content v. parsed e content v \<and>
             fst (extractProductData e html url key) = Inr v \<and>
             fst (extractProductData_ps e html url key) = Inr v) \<or>
          (\<exists>content. unparsable e content \<and>
             fst (extractProductData e html url key) = Inr (staticFallback url) \<and>
             fst (extractProductData_ps e html url key) = Inr (staticFallback_ps url)) \<or>
          (\<exists>msg. fst (extractProductData e html url key) = Inr (errorFallback url msg) \<and>
             fst (extractProductData_ps e html url key) = Inr (errorFallback_ps url msg))) \<and>
         staticFallback url \<noteq> staticFallback_ps url \<and>
         (\<forall>msg. errorFallback url msg \<noteq> errorFallback_ps url msg)"
proof -
  have "(\<exists>msg. fst (completionStage e html url key) = Inl (Error msg) \<and>
                fst (completionStage_ps e html url key) = Inl (Error msg)) \<or>
         (\<exists>content. fst (completionStage e html url key) = Inr (parseContent e url content) \<and>
                    fst (completionStage_ps e html url key) = Inr (parseContent_ps e url content))"
    by (rule stages_agree) (rule assms)
  then consider (err) msg where "fst (completionStage e html url key) = Inl (Error msg)"
      "fst (completionStage_ps e html url key) = Inl (Error msg)"
    | (ok) content where "fst (completionStage e html url key) = Inr (parseContent e url content)"
      "fst (completionStage_ps e html url key) = Inr (parseContent_ps e url content)"
    by blast
  then have "(\<exists>content v. parsed e content v \<and>
             fst (extractProductData e html url key) = Inr v \<and>
             fst (extractProductData_ps e html url key) = Inr v) \<or>
          (\<exists>content. unparsable e content \<and>
             fst (extractProductData e html url key) = Inr (staticFallback url) \<and>
             fst (extractProductData_ps e html url key) = Inr (staticFallback_ps url)) \<or>
          (\<exists>msg. fst (extractProductData e html url key) = Inr (errorFallback url msg) \<and>
             fst (extractProductData_ps e html url key) = Inr (errorFallback_ps url msg))"
  proof cases
    case err
    then show ?thesis
      using extractProductData_error extractProductData_ps_error by blast
  next
    case ok
    from parsed_or_unparsable[of e content] show ?thesis
    proof
      assume "\<exists>v. parsed e content v"
      then obtain v where v: "parsed e content v" ..
      from parsed_values[OF v, of url] ok
        extractProductData_value[of e html url key v] extractProductData_ps_value[of e html url key v]
      show ?thesis using v by auto
    next
      assume u: "unparsable e content"
      from unparsable_values[OF u, of url] ok
        extractProductData_value[of e html url key "staticFallback url"]
        extractProductData_ps_value[of e html url key "staticFallback_ps url"]
      show ?thesis using u by auto
    qed
  qed
  then show ?thesis
    using fallbacks_differ by blast
qed

theorem clients_agree_up_to_fallbacks_witness:
  "fst (extractProductData (refusing (Markup ''<h1>Widget</h1>'') ''401 Incorrect API key provided'')
         (Markup ''<h1>Widget</h1>'') ''https://shop.example/p/1'' ''sk-1'') =
      Inr (JObj [(''url'', JStr ''https://shop.example/p/1''),
                 (''title'', JStr ''Error: 401 Incorrect API key provided''),
                 (''category'', JStr ''Unknown''),
                 (''attributes'', JObj [(''colorOptions'', JArr []), (''sizeOptions'', JArr [])]),
                 (''rawPrice'', JNum 0)]) \<and>
   fst (extractProductData_ps (refusing (Markup ''<h1>Widget</h1>'') ''401 Incorrect API key provided'')
         (Markup ''<h1>Widget</h1>'') ''https://shop.example/p/1'' ''sk-1'') =
      Inr (JObj [(''url'', JStr ''https://shop.example/p/1''),
                 (''title'', JStr ''Error: 401 Incorrect API key provided''),
                 (''category'', JStr ''Error''),
                 (''attributes'', JObj []),
                 (''rawPrice'', JNum 0)]) \<and>
   staticFallback ''https://shop.example/p/1'' \<noteq> staticFallback_ps ''https://shop.example/p/1''"
proof -
  let ?e = "refusing (Markup ''<h1>Widget</h1>'') ''401 Incorrect API key provided''"
  have same: "chat_create ?e (chatRequest ''sk-1'' ''https://shop.example/p/1'' p) =
              chat_create ?e (chatRequest_ps ''sk-1'' ''https://shop.example/p/1'' q)" for p q
    by (simp add: refusing_def)
  have r: "chat_create ?e = (\<lambda>r. Inl (Error ''401 Incorrect API key provided''))"
    by (simp add: refusing_def)
  from clients_agree_up_to_fallbacks[of "Markup ''<h1>Widget</h1>''" "''https://shop.example/p/1''" ?e "''sk-1''", OF same]
  have d: "staticFallback ''https://shop.example/p/1'' \<noteq> staticFallback_ps ''https://shop.example/p/1''"
    by blast
  from extractProductData_error[OF completionStage_refused[OF r]]
    extractProductData_ps_error[OF completionStage_ps_refused[OF r]] d
  show ?thesis
    by (simp add: errorFallback_def errorFallback_ps_def)
qed

theorem completion_errors_absorbed_witness:
  "res_status (fst (parse_product extractProductData
      (refusing (Markup ''<h1>Widget</h1>'') ''429 You exceeded your current quota, please check your plan.'')
      (post_request ''https://shop.example/p/1'' ''sk-1''))) = 200 \<and>
   res_body (fst (parse_product extractProductData
      (refusing (Markup ''<h1>Widget</h1>'') ''429 You exceeded your current quota, please check your plan.'')
      (post_request ''https://shop.example/p/1'' ''sk-1''))) =
     JObj [(''url'', JStr ''https://shop.example/p/1''),
           (''title'', JStr ''Error: 429 You exceeded your current ''),
           (''category'', JStr ''Unknown''),
           (''attributes'', JObj [(''colorOptions'', JArr []), (''sizeOptions'', JArr [])]),
           (''rawPrice'', JNum 0)]"
proof -
  let ?msg = "''429 You exceeded your current quota, please check your plan.''"
  let ?e = "refusing (Markup ''<h1>Widget</h1>'') ?msg"
  let ?req = "post_request ''https://shop.example/p/1'' ''sk-1''"
  have r: "chat_create ?e = (\<lambda>r. Inl (Error ?msg))"
    by (simp add: refusing_def)
  have f: "axios_get ?e ''https://shop.example/p/1'' = Inr (Markup ''<h1>Widget</h1>'')"
    by (simp add: refusing_def)
  have s: "fst (completionStage ?e (Markup ''<h1>Widget</h1>'') ''https://shop.example/p/1'' ''sk-1'') =
           Inl (Error ?msg)"
    using completionStage_refused[OF r] .
  from completion_errors_absorbed[of ?req "''https://shop.example/p/1''" "''sk-1''" ?e
      "Markup ''<h1>Widget</h1>''"] f s
  show ?thesis
    by (simp add: post_request_def)
qed

section \<open>The option extractors\<close>

lemma set_foldl_setAdd: "set (foldl setAdd acc xs) = set acc \<union> set xs"
  by (induction xs arbitrary: acc) (auto simp: setAdd_def)

lemma distinct_foldl_setAdd: "distinct acc \<Longrightarrow> distinct (foldl setAdd acc xs)"
  by (induction xs arbitrary: acc) (auto simp: setAdd_def)

lemma set_newSet: "set (newSet xs) = set xs"
  by (simp add: newSet_def set_foldl_setAdd)

lemma distinct_newSet: "distinct (newSet xs)"
  by (simp add: newSet_def distinct_foldl_setAdd)

text \<open>A loop that only adds to its list: what it adds is what its steps add.\<close>

lemma set_foldl_step:
  assumes "\<And>acc y. set (f acc y) = set acc \<union> F y"
  shows "set (foldl f acc ys) = set acc \<union> (\<Union>y\<in>set ys. F y)"
  by (induction ys arbitrary: acc) (auto simp: assms)

lemma set_sizeStep:
  "set (sizeStep inc acc option) = set acc \<union>
     {x. (inc \<or> \<not> unavailable option) \<and> visible_text option \<noteq> [] \<and>
         \<not> placeholder (visible_text option) \<and>
         (x = visible_text option \<or>
          (truthy_group (search True (attr_re ''value'') option) = Some x \<and>
           \<not> all_digits x \<and> \<not> str_includes x ''select'' \<and> length x < 10))}"
  by (auto simp: sizeStep_def Let_def split: option.splits)

lemma set_sizeCollected:
  "set (sizeCollected html inc) =
     (\<Union>c\<in>set (sizeContainers html). \<Union>option\<in>set (sizeItems c).
        {x. (inc \<or> \<not> unavailable option) \<and> visible_text option \<noteq> [] \<and>
            \<not> placeholder (visible_text option) \<and>
            (x = visible_text option \<or>
             (truthy_group (search True (attr_re ''value'') option) = Some x \<and>
              \<not> all_digits x \<and> \<not> str_includes x ''select'' \<and> length x < 10))})"
proof -
  have inner: "set (foldl (sizeStep inc) acc (sizeItems c)) = set acc \<union>
     (\<Union>option\<in>set (sizeItems c).
        {x. (inc \<or> \<not> unavailable option) \<and> visible_text option \<noteq> [] \<and>
            \<not> placeholder (visible_text option) \<and>
            (x = visible_text option \<or>
             (truthy_group (search True (attr_re ''value'') option) = Some x \<and>
              \<not> all_digits x \<and> \<not> str_includes x ''select'' \<and> length x < 10))})" for acc c
    by (rule set_foldl_step) (rule set_sizeStep)
  show ?thesis
    unfolding sizeCollected_def
    by (subst set_foldl_step[where F = "\<lambda>c. \<Union>option\<in>set (sizeItems c).
        {x. (inc \<or> \<not> unavailable option) \<and> visible_text option \<noteq> [] \<and>
            \<not> placeholder (visible_text option) \<and>
            (x = visible_text option \<or>
             (truthy_group (search True (attr_re ''value'') option) = Some x \<and>
              \<not> all_digits x \<and> \<not> str_includes x ''select'' \<and> length x < 10))}"])
       (simp_all add: inner)
qed








lemma size_example_value: "extractSizeOptions size_example False = [''S'', ''L'']"
  by (simp add: size_example_def run_m run_js run_extractors cong: wc)


lemma keep_iff:
  "keep x \<longleftrightarrow> x \<noteq> [] \<and> length x < 20 \<and> \<not> str_includes x ''select'' \<and> \<not> str_includes x ''choose''"
  by (simp add: keep_def)

lemma size_plain_value: "extractSizeOptions size_plain False = [''S'', ''L'']"
  by (simp add: size_plain_def run_m run_js run_extractors cong: wc)

lemma size_valued_value: "extractSizeOptions size_valued False = [''S'', ''s1'', ''L'', ''l1'']"
  by (simp add: size_valued_def run_m run_js run_extractors cong: wc)

lemma size_prompted_value: "extractSizeOptions size_prompted False = [''L'']"
  by (simp add: size_prompted_def run_m run_js run_extractors cong: wc)

lemma size_labels_value: "extractSizeOptions size_labels False = [''XL'', ''XXL'']"
  by (simp add: size_labels_def run_m run_js run_extractors cong: wc)

lemma size_signals_value: "extractSizeOptions size_signals False = [''XXL'']"
  by (simp add: size_signals_def run_m run_js run_extractors cong: wc)

lemma size_repeated_value:
  "extractSizeOptions size_repeated False = [''M'', ''m'', ''1234567890123456789'']"
  by (simp add: size_repeated_def run_m run_js run_extractors cong: wc)

lemma size_kinds_value:
  "extractSizeOptions size_kinds False = [''12'', ''11'', ''10'', ''9'', ''8'']"
  by (simp add: size_kinds_def run_m run_js run_extractors cong: wc)

lemma size_containers_value: "extractSizeOptions size_containers False = [''L'', ''M'', ''S'']"
  by (simp add: size_containers_def run_m run_js run_extractors cong: wc)

lemma size_untagged_value: "extractSizeOptions size_untagged False = []"
  by (simp add: size_untagged_def run_m run_js run_extractors cong: wc)

lemma size_numbered_value:
  "extractSizeOptions size_numbered False = [''M'', ''L'', ''XL'', ''XXL'']"
  by (simp add: size_numbered_def run_m run_js run_extractors cong: wc)

lemma startsWith_prefix: "startsWith s t \<longleftrightarrow> prefix t s"
  by (induction s t rule: startsWith.induct) auto

lemma str_includes_sublist: "str_includes s t \<longleftrightarrow> sublist t s"
  by (induction s) (auto simp: startsWith_prefix sublist_Cons_right)

lemma star_digits:
  "m i (Star (Set [CDigit])) (m i Eol Some) (g, s) \<noteq> None \<longleftrightarrow> list_all isDigit s"
  by (induction s) (auto simp: m_Star_Set m.simps split: option.splits)

lemma all_digits_iff: "all_digits v \<longleftrightarrow> v \<noteq> [] \<and> list_all isDigit v"
proof (cases v)
  case Nil
  then show ?thesis
    by (simp add: all_digits_def re_digits_def Plus_def match_here_def m.simps(3,5))
next
  case (Cons c t)
  have "m False (Star (Set [CDigit])) (m False Eol Some) (None, t) = None \<longleftrightarrow> \<not> list_all isDigit t"
    using star_digits[of False None t] by blast
  with Cons show ?thesis
    by (auto simp: all_digits_def re_digits_def Plus_def match_here_def m.simps(3,5)
        split: option.splits)
qed

lemma set_container: "c \<in> set (container re html) \<longleftrightarrow> truthy_group (search True re html) = Some c"
  by (auto simp: container_def truthy_group_def split: option.splits if_splits)

lemma truthy_group_value:
  "truthy_group mm = Some x \<and> \<not> all_digits x \<and> \<not> str_includes x t \<and> length x < n \<longleftrightarrow>
   truthy_group mm = Some x \<and> \<not> list_all isDigit x \<and> \<not> sublist t x \<and> length x < n"
  by (auto simp: all_digits_iff str_includes_sublist truthy_group_def split: option.splits if_splits)

lemma bex_sizeContainers:
  "(\<exists>c\<in>set (sizeContainers html). P c) \<longleftrightarrow>
     (\<exists>tag\<in>{''select'', ''div'', ''ul''}. \<exists>c.
        truthy_group (search True (elem_attr_re tag size_key anyChar) html) = Some c \<and> P c)"
  by (auto simp: sizeContainers_def set_container)

lemma bex_sizeItems:
  "(\<exists>option\<in>set (sizeItems c). P option) \<longleftrightarrow>
     (\<exists>item\<in>{elem_re ''option'', elem_re ''li'', elem_re ''button'', elem_re ''a'',
               elem_attr_re ''div'' (Lit ''option'') Dot}.
        \<exists>option\<in>set (matches True item c). P option)"
  by (auto simp: sizeItems_def)

text \<open>
  The extractor on a select list whose labels are plain text: the matcher passes over a
  label in one step, since no pattern of the extractor can start inside it.
\<close>

lemma chr_eq_lt: "chr_eq i (CHR ''<'') c \<longleftrightarrow> c = CHR ''<''"
  by (cases c) (auto simp: chr_eq_Char)

lemma chr_eq_eq: "chr_eq i (CHR ''='') c \<longleftrightarrow> c = CHR ''=''"
  by (cases c) (auto simp: chr_eq_Char)

lemma search_skip:
  assumes "\<forall>c\<in>set l. \<not> can_start i r c"
  shows "search i r (l @ t) = map_option (\<lambda>x. x\<lparr>pre := l @ pre x\<rparr>) (search i r t)"
  using assms
  by (induction l) (simp_all add: search_Cons_start option.map_comp comp_def option.map_ident)

lemma lazy_any_skip:
  assumes "\<And>c t. c \<in> set l \<Longrightarrow> k (g, c # t) = None"
  shows "m i (Lazy (Set [CSpace, CNotSpace])) k (g, l @ t) =
         m i (Lazy (Set [CSpace, CNotSpace])) k (g, t)"
  using assms by (induction l) (simp_all add: m_Lazy_Set anyChar_ok)

lemma lazy_dot_skip_label:
  assumes "\<And>c t. c \<in> set l \<Longrightarrow> k (g, c # t) = None" and "\<forall>c\<in>set l. \<not> isLineTerminator c"
  shows "m i (Lazy Dot) k (g, l @ t) = m i (Lazy Dot) k (g, t)"
  using assms by (induction l) (simp_all add: m_Lazy_Dot)

lemma lazy_body:
  assumes "\<forall>l\<in>set labels. CHR ''<'' \<notin> set l"
    and "k (G (''</select>'' @ t), t) = Some x"
  shows "m True (Lazy (Set [CSpace, CNotSpace]))
           (\<lambda>(g', s'). m True (Lit ''</select>'') k (G s', s'))
           (g, concat (map option_el labels) @ ''</select>'' @ t) = Some x"
  using assms(1)
proof (induction labels)
  case Nil
  show ?case
    using assms(2) by (simp add: m_Lazy_Set m.simps(1) chr_eq_Char)
next
  case (Cons l ls)
  let ?K = "\<lambda>(g', s'). m True (Lit ''</select>'') k (G s', s')"
  let ?rest = "concat (map option_el ls) @ ''</select>'' @ t"
  have 1: "m True (Lazy (Set [CSpace, CNotSpace])) ?K (g, option_el l @ ?rest) =
           m True (Lazy (Set [CSpace, CNotSpace])) ?K (g, l @ ''</option>'' @ ?rest)"
    by (simp add: option_el_def m_Lazy_Set m.simps(1) chr_eq_Char anyChar_ok isSpace_Char)
  have 2: "m True (Lazy (Set [CSpace, CNotSpace])) ?K (g, l @ ''</option>'' @ ?rest) =
           m True (Lazy (Set [CSpace, CNotSpace])) ?K (g, ''</option>'' @ ?rest)"
    by (rule lazy_any_skip) (use Cons.prems in \<open>auto simp: m.simps(1) chr_eq_lt\<close>)
  have 3: "m True (Lazy (Set [CSpace, CNotSpace])) ?K (g, ''</option>'' @ ?rest) =
           m True (Lazy (Set [CSpace, CNotSpace])) ?K (g, ?rest)"
    by (simp add: m_Lazy_Set m.simps(1) chr_eq_Char anyChar_ok isSpace_Char)
  from Cons.IH Cons.prems have "m True (Lazy (Set [CSpace, CNotSpace])) ?K (g, ?rest) = Some x"
    by simp
  with 1 2 3 show ?case by simp
qed


lemma group_body:
  assumes "\<forall>l\<in>set labels. CHR ''<'' \<notin> set l"
  shows "m True (Group (Lazy (Set [CSpace, CNotSpace]))) (m True (Lit ''</select>'') Some)
           (g, concat (map option_el labels) @ ''</select>'') =
         Some (Some (concat (map option_el labels) @ ''</select>'', ''</select>''), [])"
  using lazy_body[OF assms, where k = Some and t = "[]"
      and G = "\<lambda>s'. Some (concat (map option_el labels) @ ''</select>'', s')"]
  by (simp add: m.simps(9))

lemma container_select:
  assumes "\<forall>l\<in>set labels. CHR ''<'' \<notin> set l"
  shows "search True (elem_attr_re ''select'' size_key anyChar) (select_list labels) =
         Some \<lparr>whole = select_list labels, group1 = Some (concat (map option_el labels)),
               pre = [], post = []\<rparr>"
proof -
  have "match_here True (elem_attr_re ''select'' size_key anyChar) (select_list labels) =
         Some \<lparr>whole = select_list labels, group1 = Some (concat (map option_el labels)),
               pre = [], post = []\<rparr>"
    using assms unfolding select_list_def elem_attr_re_def size_key_def anyChar_def notGt_def
    by (simp add: match_here_def m.simps(1-6) m_Star_NotSet chr_eq_Char group_body span_text_def)
  then show ?thesis
    by (subst search.simps) simp
qed

lemma search_tags_none:
  assumes "\<forall>l\<in>set labels. CHR ''<'' \<notin> set l"
    and "\<not> chr_eq i p (CHR ''o'')" and "\<not> chr_eq i p (CHR ''/'')"
    and "search i (Seq (Lit (CHR ''<'' # p # ps)) r) t = None"
  shows "search i (Seq (Lit (CHR ''<'' # p # ps)) r) (concat (map option_el labels) @ t) = None"
  using assms(1)
proof (induction labels)
  case Nil
  show ?case using assms(4) by simp
next
  case (Cons l ls)
  let ?re = "Seq (Lit (CHR ''<'' # p # ps)) r"
  let ?rest = "concat (map option_el ls) @ t"
  from Cons have rest: "search i ?re ?rest = None"
    by simp
  have close: "search i ?re (''</option>'' @ ?rest) = None"
    using rest assms(2,3)
    by (simp add: search_Cons_start chr_eq_Char match_here_def m.simps(1,5))
  have "\<forall>c\<in>set l. \<not> can_start i ?re c"
    using Cons.prems by (auto simp: chr_eq_lt)
  then have label: "search i ?re (l @ ''</option>'' @ ?rest) = None"
    using close by (simp only: search_skip option.map)
  have "search i ?re (''<option>'' @ l @ ''</option>'' @ ?rest) = None"
    using label assms(2,3)
    by (simp add: search_Cons_start chr_eq_Char match_here_def m.simps(1,5))
  then show ?case
    by (simp add: option_el_def[of l])
qed

lemma search_select_none:
  assumes "\<forall>l\<in>set labels. CHR ''<'' \<notin> set l"
    and "\<not> chr_eq i p (CHR ''o'')" and "\<not> chr_eq i p (CHR ''/'')" and "\<not> chr_eq i p (CHR ''s'')"
  shows "search i (Seq (Lit (CHR ''<'' # p # ps)) r) (select_list labels) = None"
proof -
  let ?re = "Seq (Lit (CHR ''<'' # p # ps)) r"
  have "search i ?re ''</select>'' = None"
    using assms(3)
    by (simp add: search_Cons_start search_Nil chr_eq_Char match_here_def m.simps(1,5))
  then have "search i ?re (concat (map option_el labels) @ ''</select>'') = None"
    by (rule search_tags_none[OF assms(1-3)])
  then show ?thesis
    using assms(4) unfolding select_list_def
    by (simp add: search_Cons_start chr_eq_Char match_here_def m.simps(1,5))
qed

lemma group_label:
  assumes "CHR ''<'' \<notin> set l" and "\<forall>c\<in>set l. \<not> isLineTerminator c"
  shows "m True (Group (Lazy Dot)) (m True (Lit ''</option>'') Some) (g, l @ ''</option>'' @ t) =
         Some (Some (l @ ''</option>'' @ t, ''</option>'' @ t), t)"
proof -
  let ?K = "\<lambda>(g', s'). m True (Lit ''</option>'') Some (Some (l @ ''</option>'' @ t, s'), s')"
  have "m True (Lazy Dot) ?K (g, l @ ''</option>'' @ t) = m True (Lazy Dot) ?K (g, ''</option>'' @ t)"
    by (rule lazy_dot_skip_label) (use assms in \<open>auto simp: m.simps(1) chr_eq_lt\<close>)
  also have "\<dots> = Some (Some (l @ ''</option>'' @ t, ''</option>'' @ t), t)"
    by (simp add: m_Lazy_Dot m.simps(1) chr_eq_Char)
  finally show ?thesis
    by (simp add: m.simps(9))
qed

lemma search_option:
  assumes "CHR ''<'' \<notin> set l" and "\<forall>c\<in>set l. \<not> isLineTerminator c"
  shows "search True (elem_re ''option'') (option_el l @ t) =
         Some \<lparr>whole = option_el l, group1 = Some l, pre = [], post = t\<rparr>"
proof -
  have "m True (elem_re ''option'') Some (None, option_el l @ t) =
         Some (Some (l @ ''</option>'' @ t, ''</option>'' @ t), t)"
    using assms unfolding option_el_def elem_re_def notGt_def
    by (simp add: m.simps(1-6) m_Star_NotSet chr_eq_Char group_label[unfolded append.simps])
  moreover have "span_text (option_el l @ t, t) = option_el l"
    "span_text (l @ ''</option>'' @ t, ''</option>'' @ t) = l"
    by (simp_all add: span_text_def)
  ultimately have "match_here True (elem_re ''option'') (option_el l @ t) =
         Some \<lparr>whole = option_el l, group1 = Some l, pre = [], post = t\<rparr>"
    by (simp add: match_here_def)
  then show ?thesis
    by (subst search.simps) simp
qed

lemma matches_option:
  assumes "\<forall>l\<in>set labels. CHR ''<'' \<notin> set l \<and> (\<forall>c\<in>set l. \<not> isLineTerminator c)"
  shows "matches True (elem_re ''option'') (concat (map option_el labels)) = map option_el labels"
  using assms
proof (induction labels)
  case Nil
  show ?case
    by (simp add: matches_def match_all.simps search_Nil match_here_def elem_re_def m.simps(1,5))
next
  case (Cons l ls)
  then have "search True (elem_re ''option'') (option_el l @ concat (map option_el ls)) =
         Some \<lparr>whole = option_el l, group1 = Some l, pre = [], post = concat (map option_el ls)\<rparr>"
    by (intro search_option) auto
  moreover have "option_el l \<noteq> []"
    by (simp add: option_el_def)
  ultimately show ?case
    using Cons by (simp add: matches_def match_all.simps[of _ _ "option_el l @ concat (map option_el ls)"])
qed

lemma matches_other:
  assumes "\<forall>l\<in>set labels. CHR ''<'' \<notin> set l"
    and "\<not> chr_eq True p (CHR ''o'')" and "\<not> chr_eq True p (CHR ''/'')"
  shows "matches True (Seq (Lit (CHR ''<'' # p # ps)) r) (concat (map option_el labels)) = []"
proof -
  have "search True (Seq (Lit (CHR ''<'' # p # ps)) r) [] = None"
    by (simp add: search_Nil match_here_def m.simps(1,5))
  from search_tags_none[OF assms this]
  show ?thesis
    by (simp add: matches_def match_all.simps)
qed


lemma replace_tags_option:
  assumes "CHR ''<'' \<notin> set l"
  shows "replace_all False re_tag [] (option_el l) = l"
proof -
  have "m False re_tag Some (None, option_el l) = Some (None, l @ ''</option>'')"
    unfolding option_el_def re_tag_def notGt_def
    by (simp add: m.simps(1-6) m_Star_NotSet chr_eq_Char)
  moreover have "span_text (option_el l, l @ ''</option>'') = ''<option>''"
    by (simp add: span_text_def option_el_def)
  ultimately have "match_here False re_tag (option_el l) =
      Some \<lparr>whole = ''<option>'', group1 = None, pre = [], post = l @ ''</option>''\<rparr>"
    by (simp add: match_here_def)
  then have 1: "search False re_tag (option_el l) =
      Some \<lparr>whole = ''<option>'', group1 = None, pre = [], post = l @ ''</option>''\<rparr>"
    by (subst search.simps) simp
  have "\<forall>c\<in>set l. \<not> can_start False re_tag c"
    using assms by (auto simp: re_tag_def chr_eq_lt)
  then have "search False re_tag (l @ ''</option>'') =
      map_option (\<lambda>x. x\<lparr>pre := l @ pre x\<rparr>) (search False re_tag ''</option>'')"
    by (rule search_skip)
  also have "search False re_tag ''</option>'' =
      Some \<lparr>whole = ''</option>'', group1 = None, pre = [], post = []\<rparr>"
    unfolding re_tag_def notGt_def
    by (simp add: search_Cons_start match_here_def m.simps(1-6) m_Star_NotSet chr_eq_Char
        span_text_def)
  finally have 2: "search False re_tag (l @ ''</option>'') =
      Some \<lparr>whole = ''</option>'', group1 = None, pre = l, post = []\<rparr>"
    by simp
  have 3: "search False re_tag [] = None"
    unfolding re_tag_def by (simp add: search_Nil match_here_def m.simps(1,5))
  have "replace_all False re_tag [] [] = []"
    by (subst replace_all.simps) (simp add: 3)
  then have "replace_all False re_tag [] (l @ ''</option>'') = l"
    by (subst replace_all.simps) (simp add: 2)
  then show ?thesis
    by (subst replace_all.simps) (simp add: 1)
qed

lemma lit_match_needs: "lit_match i p s = Some t \<Longrightarrow> x \<in> set p \<Longrightarrow> \<exists>c\<in>set s. chr_eq i x c"
  by (induction i p s rule: lit_match.induct) (auto split: if_splits)

lemma search_lit_none:
  assumes "x \<in> set p" and "\<forall>c\<in>set s. \<not> chr_eq i x c"
  shows "search i (Seq (Lit p) r) s = None"
  using assms(2)
proof (induction s)
  case Nil
  have "lit_match i p [] = None"
    using lit_match_needs[of i p "[]" _ x] assms(1) by (cases "lit_match i p []") auto
  then show ?case
    by (simp add: search_Nil match_here_def m.simps(1,5))
next
  case (Cons c s)
  have "lit_match i p (c # s) = None"
    using lit_match_needs[of i p "c # s" _ x] assms(1) Cons.prems
    by (cases "lit_match i p (c # s)") auto
  then have "match_here i (Seq (Lit p) r) (c # s) = None"
    by (simp add: match_here_def m.simps(1,5))
  with Cons show ?case
    by (simp add: search_Cons)
qed

lemma value_none:
  assumes "CHR ''='' \<notin> set l"
  shows "search True (attr_re ''value'') (option_el l) = None"
proof -
  have "\<forall>c\<in>set (option_el l). \<not> chr_eq True (CHR ''='') c"
    using assms by (auto simp: chr_eq_eq option_el_def)
  then have "search True (Seq (Lit ''value='') (cat [Set quote, Group (Lazy Dot), Set quote]))
      (option_el l) = None"
    by (intro search_lit_none[where x = "CHR ''=''"]) simp_all
  then show ?thesis
    by (simp add: attr_re_def)
qed

lemma sizeStep_option:
  assumes "CHR ''<'' \<notin> set l" and "CHR ''='' \<notin> set l"
  shows "sizeStep False acc (option_el l) =
     (if unavailable (option_el l) \<or> trim l = [] \<or> placeholder (trim l) then acc
      else acc @ [trim l])"
  by (simp add: sizeStep_def Let_def visible_text_def replace_tags_option[OF assms(1)]
      value_none[OF assms(2)] truthy_group_def)

lemma foldl_sizeStep:
  assumes "\<forall>l\<in>set labels. CHR ''<'' \<notin> set l \<and> CHR ''='' \<notin> set l"
  shows "foldl (sizeStep False) acc (map option_el labels) =
     acc @ filter (\<lambda>t. t \<noteq> [] \<and> \<not> placeholder t)
             (map trim (filter (\<lambda>l. \<not> unavailable (option_el l)) labels))"
  using assms by (induction labels arbitrary: acc) (simp_all add: sizeStep_option)

lemma sizeItems_options:
  assumes "\<forall>l\<in>set labels. CHR ''<'' \<notin> set l \<and> (\<forall>c\<in>set l. \<not> isLineTerminator c)"
  shows "sizeItems (concat (map option_el labels)) = map option_el labels"
proof -
  from assms have n: "\<forall>l\<in>set labels. CHR ''<'' \<notin> set l"
    by blast
  have "matches True (elem_re ''li'') (concat (map option_el labels)) = []"
    "matches True (elem_re ''button'') (concat (map option_el labels)) = []"
    "matches True (elem_re ''a'') (concat (map option_el labels)) = []"
    "matches True (elem_attr_re ''div'' (Lit ''option'') Dot) (concat (map option_el labels)) = []"
    unfolding elem_re_def elem_attr_re_def
    by (simp_all add: matches_other[OF n] chr_eq_Char)
  then show ?thesis
    by (simp add: sizeItems_def matches_option[OF assms])
qed

lemma sizeContainers_select:
  assumes "\<forall>l\<in>set labels. CHR ''<'' \<notin> set l"
  shows "sizeContainers (select_list labels) =
     (if labels = [] then [] else [concat (map option_el labels)])"
proof -
  have "search True (elem_attr_re ''div'' size_key anyChar) (select_list labels) = None"
    "search True (elem_attr_re ''ul'' size_key anyChar) (select_list labels) = None"
    unfolding elem_attr_re_def
    by (simp_all add: search_select_none[OF assms] chr_eq_Char)
  moreover have "concat (map option_el labels) = [] \<longleftrightarrow> labels = []"
    by (cases labels) (simp_all add: option_el_def)
  ultimately show ?thesis
    by (simp add: sizeContainers_def container_def container_select[OF assms])
qed

lemma select_sizes:
  assumes "\<forall>l\<in>set labels. CHR ''<'' \<notin> set l \<and> CHR ''='' \<notin> set l \<and> (\<forall>c\<in>set l. \<not> isLineTerminator c)"
  shows "extractSizeOptions (select_list labels) False =
     filter keep (newSet (filter (\<lambda>t. t \<noteq> [] \<and> \<not> placeholder t)
       (map trim (filter (\<lambda>l. \<not> unavailable (option_el l)) labels))))"
proof -
  from assms have 1: "\<forall>l\<in>set labels. CHR ''<'' \<notin> set l"
    and 2: "\<forall>l\<in>set labels. CHR ''<'' \<notin> set l \<and> (\<forall>c\<in>set l. \<not> isLineTerminator c)"
    and 3: "\<forall>l\<in>set labels. CHR ''<'' \<notin> set l \<and> CHR ''='' \<notin> set l"
    by blast+
  show ?thesis
  proof (cases "labels = []")
    case True
    with sizeContainers_select[OF 1] show ?thesis
      by (simp add: extractSizeOptions_def sizeCollected_def newSet_def)
  next
    case False
    then show ?thesis
      by (simp add: extractSizeOptions_def sizeCollected_def sizeContainers_select[OF 1]
          sizeItems_options[OF 2] foldl_sizeStep[OF 3])
  qed
qed

lemma search_found:
  "match_here i r t \<noteq> None \<Longrightarrow> search i r (p @ t) \<noteq> None"
  by (induction p) (auto simp: search_Cons search.simps[of _ _ t] split: option.splits)

lemma sold_out_unavailable:
  assumes "sublist ''Sold Out'' u"
  shows "unavailable (option_el u)"
proof -
  from assms obtain ps ss where u: "u = ps @ ''Sold Out'' @ ss"
    by (auto simp: sublist_def)
  have "match_here True re_unavailable (''Sold Out'' @ ss @ ''</option>'') \<noteq> None"
    unfolding re_unavailable_def sep_def
    by (simp add: match_here_def m.simps(1-6) m_Star_Set chr_eq_Char isSpace_Char letterBits_def)
  then have "search True re_unavailable ((''<option>'' @ ps) @ ''Sold Out'' @ ss @ ''</option>'') \<noteq> None"
    by (rule search_found)
  then show ?thesis
    by (simp add: unavailable_def option_el_def u)
qed


lemma select_sizes_unfolded:
  "(\<forall>l\<in>set labels. CHR ''<'' \<notin> set l \<and> CHR ''='' \<notin> set l \<and> (\<forall>c\<in>set l. \<not> isLineTerminator c)) \<longrightarrow>
   extractSizeOptions (select_list labels) False =
     filter (\<lambda>t. t \<noteq> [] \<and> length t < 20 \<and> \<not> sublist ''select'' t \<and> \<not> sublist ''choose'' t)
       (newSet (filter (\<lambda>t. t \<noteq> [] \<and> \<not> sublist ''Select'' t \<and> \<not> sublist ''Choose'' t)
          (map trim (filter (\<lambda>l. search True re_unavailable (option_el l) = None) labels))))"
proof -
  have k: "keep = (\<lambda>t. t \<noteq> [] \<and> length t < 20 \<and> \<not> sublist ''select'' t \<and> \<not> sublist ''choose'' t)"
    by (rule ext) (simp add: keep_def str_includes_sublist)
  have p: "(\<lambda>t. t \<noteq> [] \<and> \<not> placeholder t) =
           (\<lambda>t. t \<noteq> [] \<and> \<not> sublist ''Select'' t \<and> \<not> sublist ''Choose'' t)"
    by (rule ext) (simp add: placeholder_def str_includes_sublist)
  have u: "(\<lambda>l. \<not> unavailable (option_el l)) = (\<lambda>l. search True re_unavailable (option_el l) = None)"
    by (rule ext) (simp add: unavailable_def)
  show ?thesis
    using select_sizes[of labels] unfolding k p u by blast
qed

lemma three_options:
  "(\<forall>l\<in>{a, u, b}. CHR ''<'' \<notin> set l \<and> CHR ''='' \<notin> set l \<and> (\<forall>c\<in>set l. \<not> isLineTerminator c)) \<and>
   sublist ''Sold Out'' u \<and>
   (\<forall>l\<in>{a, b}. search True re_unavailable (option_el l) = None \<and> l \<noteq> [] \<and> trim l = l \<and>
      length l < 20 \<and> \<not> sublist ''Select'' l \<and> \<not> sublist ''Choose'' l \<and>
      \<not> sublist ''select'' l \<and> \<not> sublist ''choose'' l) \<longrightarrow>
   extractSizeOptions (select_list [a, u, b]) False = (if a = b then [a] else [a, b])"
proof (intro impI, elim conjE)
  assume plain: "\<forall>l\<in>{a, u, b}. CHR ''<'' \<notin> set l \<and> CHR ''='' \<notin> set l \<and> (\<forall>c\<in>set l. \<not> isLineTerminator c)"
    and sold: "sublist ''Sold Out'' u"
    and good: "\<forall>l\<in>{a, b}. search True re_unavailable (option_el l) = None \<and> l \<noteq> [] \<and> trim l = l \<and>
      length l < 20 \<and> \<not> sublist ''Select'' l \<and> \<not> sublist ''Choose'' l \<and>
      \<not> sublist ''select'' l \<and> \<not> sublist ''choose'' l"
  from plain have "\<forall>l\<in>set [a, u, b]. CHR ''<'' \<notin> set l \<and> CHR ''='' \<notin> set l \<and> (\<forall>c\<in>set l. \<not> isLineTerminator c)"
    by simp
  from select_sizes[OF this]
  have "extractSizeOptions (select_list [a, u, b]) False =
     filter keep (newSet (filter (\<lambda>t. t \<noteq> [] \<and> \<not> placeholder t)
       (map trim (filter (\<lambda>l. \<not> unavailable (option_el l)) [a, u, b]))))" .
  moreover have "unavailable (option_el u)"
    using sold by (rule sold_out_unavailable)
  moreover have "\<not> unavailable (option_el a)" "\<not> unavailable (option_el b)"
    using good by (simp_all add: unavailable_def)
  moreover have "trim a = a" "trim b = b" "a \<noteq> []" "b \<noteq> []"
    "\<not> placeholder a" "\<not> placeholder b" "keep a" "keep b"
    using good by (simp_all add: placeholder_def keep_def str_includes_sublist)
  ultimately show "extractSizeOptions (select_list [a, u, b]) False = (if a = b then [a] else [a, b])"
    by (simp add: newSet_def setAdd_def)
qed

text \<open>
  C6, as amended. The size extractor takes the body, when it is not empty, of the first
  \<open>select\<close>, the first \<open>div\<close> and the first \<open>ul\<close> whose opening tag contains \<open>size\<close> or
  \<open>variant\<close>, and in each body the \<open>option\<close>, \<open>li\<close>, \<open>button\<close> and \<open>a\<close> elements and the
  \<open>div\<close> elements whose opening tag contains \<open>option\<close>. An item is passed over when its
  markup matches the pattern of line 144 (\<open>disabled\<close>, \<open>sold out\<close>, \<open>out of stock\<close>,
  \<open>unavailable\<close>), and when its text, with the tags removed and trimmed, is empty or
  contains \<open>Select\<close> or \<open>Choose\<close>. Of every other item the extractor collects the text,
  and also the \<open>value\<close> attribute when that is not empty, not a number, without \<open>select\<close>
  and shorter than 10 characters. It returns the collected texts without duplicates, those
  that are not empty, shorter than 20 characters and without \<open>select\<close> or \<open>choose\<close>.

  For a select list named \<open>size\<close> whose options have no attributes and whose labels
  have no \<open><\<close>, no \<open>=\<close> and no line break, the result is the list of the trimmed labels
  of the options whose markup does not match the pattern of line 144, without the empty
  ones, those with \<open>Select\<close> or \<open>Choose\<close>, the duplicates, and those of 20 characters or
  more or with \<open>select\<close> or \<open>choose\<close>. So for three such options, of which the second
  says \<open>Sold Out\<close> and the other two are labels that the extractor keeps, it returns
  exactly the other two (one, if they are equal).

  For the select list of the example, whose three options are \<open>S\<close>, \<open>M - Sold Out\<close> and
  \<open>L\<close>, it returns \<open>S\<close> and \<open>L\<close> when the options have no \<open>value\<close> attribute or one that
  equals the label, and \<open>S\<close>, \<open>s1\<close>, \<open>L\<close>, \<open>l1\<close> when the values are \<open>s1\<close>, \<open>m1\<close> and
  \<open>l1\<close>. The other equations show a value that is a number, has \<open>select\<close> in it or is too
  long; labels in further markup, a prompt and an empty item; each way to signal that a
  size is not to be had; labels that differ in case only, and a label of 20 characters;
  every kind of item; one container of each kind, in the order \<open>select\<close>, \<open>div\<close>, \<open>ul\<close>;
  and markup whose only tagged element holds no item.
\<close>

theorem size_options:
  "distinct (extractSizeOptions html False) \<and>
   (\<forall>x. x \<in> set (extractSizeOptions html False) \<longleftrightarrow>
      x \<noteq> [] \<and> length x < 20 \<and> \<not> sublist ''select'' x \<and> \<not> sublist ''choose'' x \<and>
      (\<exists>tag\<in>{''select'', ''div'', ''ul''}. \<exists>c.
         truthy_group (search True (elem_attr_re tag size_key anyChar) html) = Some c \<and>
         (\<exists>item\<in>{elem_re ''option'', elem_re ''li'', elem_re ''button'', elem_re ''a'',
                   elem_attr_re ''div'' (Lit ''option'') Dot}.
          \<exists>option\<in>set (matches True item c).
            search True re_unavailable option = None \<and>
            trim (replace_all False re_tag [] option) \<noteq> [] \<and>
            \<not> sublist ''Select'' (trim (replace_all False re_tag [] option)) \<and>
            \<not> sublist ''Choose'' (trim (replace_all False re_tag [] option)) \<and>
            (x = trim (replace_all False re_tag [] option) \<or>
             (truthy_group (search True (attr_re ''value'') option) = Some x \<and>
              \<not> list_all isDigit x \<and> \<not> sublist ''select'' x \<and> length x < 10))))) \<and>
   (\<forall>labels.
      (\<forall>l\<in>set labels. CHR ''<'' \<notin> set l \<and> CHR ''='' \<notin> set l \<and> (\<forall>c\<in>set l. \<not> isLineTerminator c)) \<longrightarrow>
      extractSizeOptions (select_list labels) False =
        filter (\<lambda>t. t \<noteq> [] \<and> length t < 20 \<and> \<not> sublist ''select'' t \<and> \<not> sublist ''choose'' t)
          (newSet (filter (\<lambda>t. t \<noteq> [] \<and> \<not> sublist ''Select'' t \<and> \<not> sublist ''Choose'' t)
             (map trim (filter (\<lambda>l. search True re_unavailable (option_el l) = None) labels))))) \<and>
   (\<forall>a u b.
      (\<forall>l\<in>{a, u, b}. CHR ''<'' \<notin> set l \<and> CHR ''='' \<notin> set l \<and> (\<forall>c\<in>set l. \<not> isLineTerminator c)) \<and>
      sublist ''Sold Out'' u \<and>
      (\<forall>l\<in>{a, b}. search True re_unavailable (option_el l) = None \<and> l \<noteq> [] \<and> trim l = l \<and>
         length l < 20 \<and> \<not> sublist ''Select'' l \<and> \<not> sublist ''Choose'' l \<and>
         \<not> sublist ''select'' l \<and> \<not> sublist ''choose'' l) \<longrightarrow>
      extractSizeOptions (select_list [a, u, b]) False = (if a = b then [a] else [a, b])) \<and>
   extractSizeOptions size_plain False = [''S'', ''L''] \<and>
   extractSizeOptions size_example False = [''S'', ''L''] \<and>
   extractSizeOptions size_valued False = [''S'', ''s1'', ''L'', ''l1''] \<and>
   extractSizeOptions size_numbered False = [''M'', ''L'', ''XL'', ''XXL''] \<and>
   extractSizeOptions size_labels False = [''XL'', ''XXL''] \<and>
   extractSizeOptions size_signals False = [''XXL''] \<and>
   extractSizeOptions size_repeated False = [''M'', ''m'', ''1234567890123456789''] \<and>
   extractSizeOptions size_kinds False = [''12'', ''11'', ''10'', ''9'', ''8''] \<and>
   extractSizeOptions size_containers False = [''L'', ''M'', ''S''] \<and>
   extractSizeOptions size_untagged False = []"
proof -
  have d: "distinct (extractSizeOptions html False)"
    by (simp add: extractSizeOptions_def distinct_newSet)
  have s: "x \<in> set (extractSizeOptions html False) \<longleftrightarrow>
      x \<noteq> [] \<and> length x < 20 \<and> \<not> sublist ''select'' x \<and> \<not> sublist ''choose'' x \<and>
      (\<exists>tag\<in>{''select'', ''div'', ''ul''}. \<exists>c.
         truthy_group (search True (elem_attr_re tag size_key anyChar) html) = Some c \<and>
         (\<exists>item\<in>{elem_re ''option'', elem_re ''li'', elem_re ''button'', elem_re ''a'',
                   elem_attr_re ''div'' (Lit ''option'') Dot}.
          \<exists>option\<in>set (matches True item c).
            search True re_unavailable option = None \<and>
            trim (replace_all False re_tag [] option) \<noteq> [] \<and>
            \<not> sublist ''Select'' (trim (replace_all False re_tag [] option)) \<and>
            \<not> sublist ''Choose'' (trim (replace_all False re_tag [] option)) \<and>
            (x = trim (replace_all False re_tag [] option) \<or>
             (truthy_group (search True (attr_re ''value'') option) = Some x \<and>
              \<not> list_all isDigit x \<and> \<not> sublist ''select'' x \<and> length x < 10))))"
    (is "?L \<longleftrightarrow> ?R") for x
  proof -
    have "?L \<longleftrightarrow>
      x \<noteq> [] \<and> length x < 20 \<and> \<not> str_includes x ''select'' \<and> \<not> str_includes x ''choose'' \<and>
      (\<exists>c\<in>set (sizeContainers html). \<exists>option\<in>set (sizeItems c).
         \<not> unavailable option \<and> visible_text option \<noteq> [] \<and>
         \<not> placeholder (visible_text option) \<and>
         (x = visible_text option \<or>
          (truthy_group (search True (attr_re ''value'') option) = Some x \<and>
           \<not> all_digits x \<and> \<not> str_includes x ''select'' \<and> length x < 10)))"
      unfolding extractSizeOptions_def set_filter set_newSet set_sizeCollected keep_iff
      by auto
    also have "\<dots> \<longleftrightarrow> ?R"
      unfolding bex_sizeContainers bex_sizeItems unavailable_def visible_text_def placeholder_def
        truthy_group_value
      by (simp only: str_includes_sublist de_Morgan_disj not_not conj_assoc)
    finally show ?thesis .
  qed
  show ?thesis
    by (intro conjI allI d s select_sizes_unfolded three_options size_plain_value size_example_value size_valued_value
        size_numbered_value size_labels_value size_signals_value size_repeated_value
        size_kinds_value size_containers_value size_untagged_value)
qed

theorem size_options_witness:
  "''S'' \<in> set (extractSizeOptions size_example False) \<and>
   ''M - Sold Out'' \<notin> set (extractSizeOptions size_example False) \<and>
   distinct (extractSizeOptions size_example False) \<and>
   select_list [''S'', ''M - Sold Out'', ''L''] = size_plain \<and>
   extractSizeOptions (select_list [''S'', ''M - Sold Out'', ''L'']) False = [''S'', ''L'']"
proof -
  define body :: string where
    \<open>body = ''<option value="S">S</option><option value="M">M - Sold Out</option><option value="L">L</option>''\<close>
  define item :: string where \<open>item = ''<option value="S">S</option>''\<close>
  have c: "truthy_group (search True (elem_attr_re ''select'' size_key anyChar) size_example) = Some body"
    unfolding size_example_def body_def
    by (simp add: run_m run_js run_extractors cong: wc)
  have i: "item \<in> set (matches True (elem_re ''option'') body)"
    unfolding item_def body_def
    by (simp add: run_m run_js run_extractors cong: wc)
  have u: "search True re_unavailable item = None"
    unfolding item_def
    by (simp add: run_m run_js run_extractors cong: wc)
  have t: "trim (replace_all False re_tag [] item) = ''S''"
    unfolding item_def
    by (simp add: run_m run_js run_extractors cong: wc)
  have n: "\<not> sublist ''select'' ''S''" "\<not> sublist ''choose'' ''S''"
    "\<not> sublist ''Select'' ''S''" "\<not> sublist ''Choose'' ''S''"
    by (simp_all add: sublist_Cons_right)
  note all = size_options[of size_example]
  from all have d: "distinct (extractSizeOptions size_example False)"
    by (rule conjunct1)
  from all have e: "extractSizeOptions size_example False = [''S'', ''L'']"
    by (elim conjE)
  from all have s: "\<forall>x. x \<in> set (extractSizeOptions size_example False) \<longleftrightarrow>
      x \<noteq> [] \<and> length x < 20 \<and> \<not> sublist ''select'' x \<and> \<not> sublist ''choose'' x \<and>
      (\<exists>tag\<in>{''select'', ''div'', ''ul''}. \<exists>c.
         truthy_group (search True (elem_attr_re tag size_key anyChar) size_example) = Some c \<and>
         (\<exists>item\<in>{elem_re ''option'', elem_re ''li'', elem_re ''button'', elem_re ''a'',
                   elem_attr_re ''div'' (Lit ''option'') Dot}.
          \<exists>option\<in>set (matches True item c).
            search True re_unavailable option = None \<and>
            trim (replace_all False re_tag [] option) \<noteq> [] \<and>
            \<not> sublist ''Select'' (trim (replace_all False re_tag [] option)) \<and>
            \<not> sublist ''Choose'' (trim (replace_all False re_tag [] option)) \<and>
            (x = trim (replace_all False re_tag [] option) \<or>
             (truthy_group (search True (attr_re ''value'') option) = Some x \<and>
              \<not> list_all isDigit x \<and> \<not> sublist ''select'' x \<and> length x < 10))))"
    by (elim conjE)
  have "''S'' \<in> set (extractSizeOptions size_example False)"
  proof (subst s[rule_format], intro conjI)
    show "\<exists>tag\<in>{''select'', ''div'', ''ul''}. \<exists>c.
         truthy_group (search True (elem_attr_re tag size_key anyChar) size_example) = Some c \<and>
         (\<exists>item\<in>{elem_re ''option'', elem_re ''li'', elem_re ''button'', elem_re ''a'',
                   elem_attr_re ''div'' (Lit ''option'') Dot}.
          \<exists>option\<in>set (matches True item c).
            search True re_unavailable option = None \<and>
            trim (replace_all False re_tag [] option) \<noteq> [] \<and>
            \<not> sublist ''Select'' (trim (replace_all False re_tag [] option)) \<and>
            \<not> sublist ''Choose'' (trim (replace_all False re_tag [] option)) \<and>
            (''S'' = trim (replace_all False re_tag [] option) \<or>
             (truthy_group (search True (attr_re ''value'') option) = Some ''S'' \<and>
              \<not> list_all isDigit ''S'' \<and> \<not> sublist ''select'' ''S'' \<and> length ''S'' < 10)))"
    proof (rule bexI[of _ "''select''"], rule exI[of _ body], rule conjI[OF c],
        rule bexI[of _ "elem_re ''option''"], rule bexI[OF _ i])
      show "search True re_unavailable item = None \<and>
            trim (replace_all False re_tag [] item) \<noteq> [] \<and>
            \<not> sublist ''Select'' (trim (replace_all False re_tag [] item)) \<and>
            \<not> sublist ''Choose'' (trim (replace_all False re_tag [] item)) \<and>
            (''S'' = trim (replace_all False re_tag [] item) \<or>
             (truthy_group (search True (attr_re ''value'') item) = Some ''S'' \<and>
              \<not> list_all isDigit ''S'' \<and> \<not> sublist ''select'' ''S'' \<and> length ''S'' < 10))"
        unfolding t using u n by simp
    qed simp_all
  qed (use n in simp_all)
  moreover have "''M - Sold Out'' \<notin> set (extractSizeOptions size_example False)"
    unfolding e by simp
  moreover have "select_list [''S'', ''M - Sold Out'', ''L''] = size_plain"
    by (simp add: select_list_def option_el_def size_plain_def)
  moreover have "extractSizeOptions (select_list [''S'', ''M - Sold Out'', ''L'']) False = [''S'', ''L'']"
  proof -
    from all have three: "\<forall>a u b.
      (\<forall>l\<in>{a, u, b}. CHR ''<'' \<notin> set l \<and> CHR ''='' \<notin> set l \<and> (\<forall>c\<in>set l. \<not> isLineTerminator c)) \<and>
      sublist ''Sold Out'' u \<and>
      (\<forall>l\<in>{a, b}. search True re_unavailable (option_el l) = None \<and> l \<noteq> [] \<and> trim l = l \<and>
         length l < 20 \<and> \<not> sublist ''Select'' l \<and> \<not> sublist ''Choose'' l \<and>
         \<not> sublist ''select'' l \<and> \<not> sublist ''choose'' l) \<longrightarrow>
      extractSizeOptions (select_list [a, u, b]) False = (if a = b then [a] else [a, b])"
      by (elim conjE)
    have plain: "\<forall>l\<in>{''S'', ''M - Sold Out'', ''L''}.
        CHR ''<'' \<notin> set l \<and> CHR ''='' \<notin> set l \<and> (\<forall>c\<in>set l. \<not> isLineTerminator c)"
      by (simp add: isLineTerminator_def)
    have sold: "sublist ''Sold Out'' ''M - Sold Out''"
      by (simp add: sublist_Cons_right)
    have av: "search True re_unavailable (option_el ''S'') = None"
      "search True re_unavailable (option_el ''L'') = None"
      unfolding option_el_def append.simps
      by (simp_all add: run_m run_js run_extractors cong: wc)
    have good: "\<forall>l\<in>{''S'', ''L''}. search True re_unavailable (option_el l) = None \<and> l \<noteq> [] \<and>
        trim l = l \<and> length l < 20 \<and> \<not> sublist ''Select'' l \<and> \<not> sublist ''Choose'' l \<and>
        \<not> sublist ''select'' l \<and> \<not> sublist ''choose'' l"
      using av by (simp add: trim_def isSpace_Char sublist_Cons_right)
    from three[rule_format, of "''S''" "''M - Sold Out''" "''L''"] plain sold good
    show ?thesis
      by simp
  qed
  ultimately show ?thesis
    using d by (intro conjI)
qed

text \<open>
  Of three options of which one says \<open>Sold Out\<close>, the extractor does not return exactly
  the other two when the options carry values of their own, or when one of the other two
  is a prompt.
\<close>

theorem size_values_collected:
  "extractSizeOptions size_valued False = [''S'', ''s1'', ''L'', ''l1''] \<and>
   extractSizeOptions size_prompted False = [''L'']"
  using size_valued_value size_prompted_value by simp




section \<open>The prompt assembler\<close>


















section \<open>Undetected fields\<close>

lemma plain_page_matches:
  "titleMatch plain_page = None" "priceMatch plain_page = None" "descMatch plain_page = None"
  "catMatch plain_page = None" "sizeContainers plain_page = []" "colorContainers plain_page = []"
  by (simp_all add: plain_page_def run_m run_js run_extractors cong: wc)

lemma no_containers_no_sizes:
  "sizeContainers html = [] \<Longrightarrow> extractSizeOptions html inc = []"
  by (simp add: extractSizeOptions_def sizeCollected_def newSet_def)

lemma no_containers_no_colors:
  "colorContainers html = [] \<Longrightarrow> extractColorOptions html = []"
  by (simp add: extractColorOptions_def colorCollected_def newSet_def)

lemma extractProductData_calls:
  "\<exists>p. extractProductInfo (reduce t) url = Inr p \<and>
       snd (extractProductData e (Markup t) url key) = [ChatCompletion (chatRequest key url p)]"
proof -
  from completionStage_Markup[of t url e key] obtain p where
    p: "extractProductInfo (reduce t) url = Inr p" and
    eq: "completionStage e (Markup t) url key =
       (case chat_create e (chatRequest key url p) of
          Inl err \<Rightarrow> (Inl err, [ChatCompletion (chatRequest key url p)])
        | Inr response \<Rightarrow>
            (case response_content response of
               Inl err \<Rightarrow> (Inl err, [ChatCompletion (chatRequest key url p)])
             | Inr content \<Rightarrow>
                 (Inr (parseContent e url content), [ChatCompletion (chatRequest key url p)])))"
    by blast
  have "snd (completionStage e (Markup t) url key) = [ChatCompletion (chatRequest key url p)]"
    unfolding eq by (simp split: sum.splits)
  then have "snd (extractProductData e (Markup t) url key) = [ChatCompletion (chatRequest key url p)]"
    by (cases "completionStage e (Markup t) url key")
       (auto simp: extractProductData_def split: sum.splits js_error.splits)
  with p show ?thesis by blast
qed

text \<open>
  C9. The extractors are functions of the markup alone (they take no world and make no
  call) and never throw: the prompt assembler returns a text for every markup. A field
  none of whose patterns matches adds no line (title, price, description, category), a
  field without a container gives the empty list of options and no line (size, colour),
  and when nothing at all is found the output is the raw block. Whatever the markup of
  the fetched page, \<open>extractProductData\<close> gets as far as the completion call, and the
  request is answered with status 200.
\<close>

theorem undetected_fields_are_omitted:
  "(\<exists>out. extractProductInfo html url = Inr out) \<and>
   (\<exists>t d k. titleInfo html = Inr t \<and> descInfo html = Inr d \<and> catInfo html = Inr k \<and>
      (titleMatch html = None \<longrightarrow> t = []) \<and>
      (descMatch html = None \<longrightarrow> d = []) \<and>
      (catMatch html = None \<longrightarrow> k = [])) \<and>
   (priceMatch html = None \<longrightarrow> priceInfo html = []) \<and>
   (sizeContainers html = [] \<longrightarrow> extractSizeOptions html inc = [] \<and> sizeInfo html = []) \<and>
   (colorContainers html = [] \<longrightarrow> extractColorOptions html = [] \<and> colorInfo html = []) \<and>
   (titleMatch html = None \<and> priceMatch html = None \<and> sizeContainers html = [] \<and>
    colorContainers html = [] \<and> descMatch html = None \<and> catMatch html = None \<longrightarrow>
      extractProductInfo html url =
        Inr (nl @ ''PRODUCT URL: '' @ url @ nl @ ''RAW HTML:'' @ nl @ take 4000 html @ nl @ ''  '')) \<and>
   (\<exists>p. extractProductInfo (reduce html) url = Inr p \<and>
      snd (extractProductData e (Markup html) url key) = [ChatCompletion (chatRequest key url p)]) \<and>
   (req_url req = Some url \<and> url \<noteq> [] \<and> req_openaiApiKey req = Some key \<and> key \<noteq> [] \<and>
    axios_get e url = Inr (Markup html) \<longrightarrow>
      res_status (fst (parse_product extractProductData e req)) = 200)"
proof -
  from titleInfo_Inr[of html] obtain t where
    t: "titleInfo html = Inr t" "titleMatch html = None \<longrightarrow> t = []" by auto
  from descInfo_Inr[of html] obtain d where
    d: "descInfo html = Inr d" "descMatch html = None \<longrightarrow> d = []" by auto
  from catInfo_Inr[of html] obtain k where
    k: "catInfo html = Inr k" "catMatch html = None \<longrightarrow> k = []" by auto
  have fields: "\<exists>t d k. titleInfo html = Inr t \<and> descInfo html = Inr d \<and> catInfo html = Inr k \<and>
      (titleMatch html = None \<longrightarrow> t = []) \<and>
      (descMatch html = None \<longrightarrow> d = []) \<and>
      (catMatch html = None \<longrightarrow> k = [])"
    using t d k by auto
  have price: "priceMatch html = None \<longrightarrow> priceInfo html = []"
    by (simp add: priceInfo_def)
  have size: "sizeContainers html = [] \<longrightarrow> extractSizeOptions html inc = [] \<and> sizeInfo html = []"
    by (simp add: no_containers_no_sizes sizeInfo_def)
  have color: "colorContainers html = [] \<longrightarrow> extractColorOptions html = [] \<and> colorInfo html = []"
    by (simp add: no_containers_no_colors colorInfo_def)
  have raw_block: "titleMatch html = None \<and> priceMatch html = None \<and> sizeContainers html = [] \<and>
    colorContainers html = [] \<and> descMatch html = None \<and> catMatch html = None \<longrightarrow>
      extractProductInfo html url =
        Inr (nl @ ''PRODUCT URL: '' @ url @ nl @ ''RAW HTML:'' @ nl @ take 4000 html @ nl @ ''  '')"
    using t d k price size color
    by (auto simp: extractProductInfo_def productInfo_def Let_def raw_def)
  have ok: "req_url req = Some url \<and> url \<noteq> [] \<and> req_openaiApiKey req = Some key \<and> key \<noteq> [] \<and>
    axios_get e url = Inr (Markup html) \<longrightarrow>
      res_status (fst (parse_product extractProductData e req)) = 200"
  proof
    assume a: "req_url req = Some url \<and> url \<noteq> [] \<and> req_openaiApiKey req = Some key \<and> key \<noteq> [] \<and>
      axios_get e url = Inr (Markup html)"
    obtain v where v: "fst (extractProductData e (Markup html) url key) = Inr v"
      using extractProductData_Inr by blast
    from a have "fst (parse_product extractProductData e req) = \<lparr>res_status = 200, res_body = v\<rparr>"
      by (intro parse_product_ok[where impl = extractProductData, OF _ _ _ _ _ v]) auto
    then show "res_status (fst (parse_product extractProductData e req)) = 200"
      by simp
  qed
  show ?thesis
    using extractProductInfo_Inr[of html url] fields price size color raw_block
      extractProductData_calls[of html url e key] ok
    by blast
qed

theorem undetected_fields_are_omitted_witness:
  "titleMatch plain_page = None \<and> priceMatch plain_page = None \<and> sizeContainers plain_page = [] \<and>
   colorContainers plain_page = [] \<and> descMatch plain_page = None \<and> catMatch plain_page = None \<and>
   extractSizeOptions plain_page False = [] \<and> extractColorOptions plain_page = [] \<and>
   extractProductInfo plain_page ''https://shop.example/p/1'' =
     Inr (nl @ ''PRODUCT URL: https://shop.example/p/1'' @ nl @ ''RAW HTML:'' @ nl @ ''404 Not Found'' @ nl @ ''  '') \<and>
   res_status (fst (parse_product extractProductData
      (refusing (Markup plain_page) ''Connection error.'')
      (post_request ''https://shop.example/p/1'' ''sk-1''))) = 200"
proof -
  let ?e = "refusing (Markup plain_page) ''Connection error.''"
  let ?req = "post_request ''https://shop.example/p/1'' ''sk-1''"
  have r: "req_url ?req = Some ''https://shop.example/p/1'' \<and> ''https://shop.example/p/1'' \<noteq> [] \<and>
    req_openaiApiKey ?req = Some ''sk-1'' \<and> ''sk-1'' \<noteq> [] \<and>
    axios_get ?e ''https://shop.example/p/1'' = Inr (Markup plain_page)"
    by (simp add: post_request_def refusing_def)
  from undetected_fields_are_omitted[of plain_page "''https://shop.example/p/1''" False ?e "''sk-1''" ?req]
    plain_page_matches r
  show ?thesis
    by (simp add: plain_page_def)
qed

end
